theory Spec2Isabelle
  imports Main
begin

section \<open>Calendar dates\<close>

text \<open>
  A Python \<open>datetime.date\<close> is a triple of year, month and day.  The constructor
  accepts exactly the triples with \<open>1 \<le> year \<le> 9999\<close>, \<open>1 \<le> month \<le> 12\<close> and
  \<open>1 \<le> day \<le> days_in_month\<close>; every other triple raises \<open>ValueError\<close>, which
  \<open>make_date\<close> returns as \<open>None\<close>.
\<close>

record date =
  year :: int
  month :: int
  day :: int

definition is_leap :: "int \<Rightarrow> bool" where
  "is_leap y = (y mod 4 = 0 \<and> (y mod 100 \<noteq> 0 \<or> y mod 400 = 0))"

definition days_in_month :: "int \<Rightarrow> int \<Rightarrow> int" where
  "days_in_month y m =
     (if m = 2 then (if is_leap y then 29 else 28)
      else if m = 4 \<or> m = 6 \<or> m = 9 \<or> m = 11 then 30 else 31)"

definition valid_date :: "date \<Rightarrow> bool" where
  "valid_date d =
     (1 \<le> year d \<and> year d \<le> 9999 \<and> 1 \<le> month d \<and> month d \<le> 12 \<and>
      1 \<le> day d \<and> day d \<le> days_in_month (year d) (month d))"

definition make_date :: "int \<Rightarrow> int \<Rightarrow> int \<Rightarrow> date option" where
  "make_date y m d =
     (let r = \<lparr>year = y, month = m, day = d\<rparr>
      in if valid_date r then Some r else None)"

subsection \<open>Ordinals, weekdays and date arithmetic\<close>

text \<open>
  Python does date arithmetic on the proleptic Gregorian ordinal (\<open>0001-01-01\<close> is day 1,
  \<open>9999-12-31\<close> is day \<open>3652059\<close>): \<open>d + timedelta(days=n)\<close> is
  \<open>date.fromordinal(d.toordinal() + n)\<close> and raises \<open>OverflowError\<close> outside the range,
  and \<open>d.weekday()\<close> is \<open>(d.toordinal() + 6) % 7\<close> with Monday as 0.
\<close>

definition days_before_year :: "int \<Rightarrow> int" where
  "days_before_year y = (let p = y - 1 in p * 365 + p div 4 - p div 100 + p div 400)"

definition days_before_month :: "int \<Rightarrow> int \<Rightarrow> int" where
  "days_before_month y m =
     (if m \<le> 1 then 0 else if m = 2 then 31 else if m = 3 then 59 else if m = 4 then 90
      else if m = 5 then 120 else if m = 6 then 151 else if m = 7 then 181
      else if m = 8 then 212 else if m = 9 then 243 else if m = 10 then 273
      else if m = 11 then 304 else 334)
     + (if m > 2 \<and> is_leap y then 1 else 0)"

definition toordinal :: "date \<Rightarrow> int" where
  "toordinal d = days_before_year (year d) + days_before_month (year d) (month d) + day d"

definition MAXORDINAL :: int where
  "MAXORDINAL = 3652059"

definition ord2ymd :: "int \<Rightarrow> date" where
  "ord2ymd n0 =
     (let a = n0 - 1;
          n400 = a div 146097; b = a mod 146097;
          n100 = b div 36524; c = b mod 36524;
          n4 = c div 1461; e = c mod 1461;
          n1 = e div 365; n = e mod 365;
          y = n400 * 400 + 1 + n100 * 100 + n4 * 4 + n1
      in if n1 = 4 \<or> n100 = 4 then \<lparr>year = y - 1, month = 12, day = 31\<rparr>
         else
           let m = (n + 50) div 32;
               preceding = days_before_month y m
           in if preceding > n
              then \<lparr>year = y, month = m - 1,
                    day = n - (preceding - days_in_month y (m - 1)) + 1\<rparr>
              else \<lparr>year = y, month = m, day = n - preceding + 1\<rparr>)"

definition weekday :: "date \<Rightarrow> int" where
  "weekday d = (toordinal d + 6) mod 7"

subsection \<open>Decimal text\<close>

definition is_digit :: "char \<Rightarrow> bool" where
  "is_digit c = (c \<in> set ''0123456789'')"

definition digit_val :: "char \<Rightarrow> int" where
  "digit_val c = of_char c - 48"

definition digit_char :: "int \<Rightarrow> char" where
  "digit_char n = ''0123456789'' ! nat (n mod 10)"

definition two_digits :: "int \<Rightarrow> string" where
  "two_digits n = [digit_char (n div 10), digit_char n]"

definition four_digits :: "int \<Rightarrow> string" where
  "four_digits n = [digit_char (n div 1000), digit_char (n div 100), digit_char (n div 10), digit_char n]"

text \<open>\<open>int(s)\<close> on the text of a matched group: leading blanks are dropped, the rest is decimal.\<close>

definition py_int :: "string \<Rightarrow> int" where
  "py_int s = foldl (\<lambda>a c. 10 * a + digit_val c) 0 (dropWhile (\<lambda>c. c = CHR '' '') s)"

text \<open>\<open>str(n)\<close> for a Python integer.\<close>

function str_nonneg :: "int \<Rightarrow> string" where
  "str_nonneg n =
     (if n < 10 then [digit_char n] else str_nonneg (n div 10) @ [digit_char n])"
  by pat_completeness auto
termination
  by (relation "measure nat") auto

declare str_nonneg.simps [simp del]

definition str_int :: "int \<Rightarrow> string" where
  "str_int n = (if n < 0 then CHR ''-'' # str_nonneg (- n) else str_nonneg n)"

text \<open>
  \<open>strftime\<close> in the C locale: \<open>%d\<close> and \<open>%m\<close> are two digits, \<open>%Y\<close> is the year in
  decimal (four digits from year 1000 on; the C library does not pad below), \<open>%b\<close> and
  \<open>%A\<close> are the English month abbreviation and weekday name.
\<close>

definition month_abbr :: "int \<Rightarrow> string" where
  "month_abbr m =
     [''Jan'', ''Feb'', ''Mar'', ''Apr'', ''May'', ''Jun'',
      ''Jul'', ''Aug'', ''Sep'', ''Oct'', ''Nov'', ''Dec''] ! nat (m - 1)"

definition day_name :: "int \<Rightarrow> string" where
  "day_name w =
     [''Monday'', ''Tuesday'', ''Wednesday'', ''Thursday'', ''Friday'', ''Saturday'', ''Sunday'']
       ! nat w"

definition strftime_dmY :: "date \<Rightarrow> string" where
  "strftime_dmY d = two_digits (day d) @ two_digits (month d) @ str_int (year d)"

definition strftime_Ymd_dash :: "date \<Rightarrow> string" where
  "strftime_Ymd_dash d = str_int (year d) @ ''-'' @ two_digits (month d) @ ''-'' @ two_digits (day d)"

definition strftime_Ym :: "date \<Rightarrow> string" where
  "strftime_Ym d = str_int (year d) @ two_digits (month d)"

definition strftime_Ymd :: "date \<Rightarrow> string" where
  "strftime_Ymd d = str_int (year d) @ two_digits (month d) @ two_digits (day d)"

definition strftime_d_b_Y :: "date \<Rightarrow> string" where
  "strftime_d_b_Y d = two_digits (day d) @ ''-'' @ month_abbr (month d) @ ''-'' @ str_int (year d)"

definition strftime_A :: "date \<Rightarrow> string" where
  "strftime_A d = day_name (weekday d)"

subsection \<open>\<open>datetime.strptime\<close>\<close>

text \<open>
  \<open>strptime\<close> turns the format into a regular expression with one group per directive and
  takes the first match in backtracking order at the start of the text:
  \<^item> \<open>%d\<close> is \<open>3[0-1]|[1-2]\d|0[1-9]|[1-9]| [1-9]\<close>,
  \<^item> \<open>%m\<close> is \<open>1[0-2]|0[1-9]|[1-9]\<close>,
  \<^item> \<open>%Y\<close> is \<open>\d\d\d\d\<close>.
  Text left over after the match, or fields that are no calendar date, raise \<open>ValueError\<close>.
  A matcher returns its matches as (matched text, rest), in the order backtracking tries them.
  Characters are code points below 256, where \<open>\d\<close> matches the ten ASCII digits only.
\<close>

type_synonym matcher = "string \<Rightarrow> (string \<times> string) list"

definition rx_class :: "string \<Rightarrow> matcher" where
  "rx_class cs s = (case s of [] \<Rightarrow> [] | c # r \<Rightarrow> if c \<in> set cs then [([c], r)] else [])"

definition rx_then :: "matcher \<Rightarrow> matcher \<Rightarrow> matcher" where
  "rx_then p q s = concat (map (\<lambda>(a, r). map (\<lambda>(b, r'). (a @ b, r')) (q r)) (p s))"

definition rx_or :: "matcher \<Rightarrow> matcher \<Rightarrow> matcher" where
  "rx_or p q s = p s @ q s"

definition rx_digit :: matcher where
  "rx_digit = rx_class ''0123456789''"

definition rx_nonzero :: matcher where
  "rx_nonzero = rx_class ''123456789''"

definition rx_d :: matcher where
  "rx_d = rx_or (rx_then (rx_class ''3'') (rx_class ''01''))
         (rx_or (rx_then (rx_class ''12'') rx_digit)
         (rx_or (rx_then (rx_class ''0'') rx_nonzero)
         (rx_or rx_nonzero
                (rx_then (rx_class '' '') rx_nonzero))))"

definition rx_m :: matcher where
  "rx_m = rx_or (rx_then (rx_class ''1'') (rx_class ''012''))
         (rx_or (rx_then (rx_class ''0'') rx_nonzero)
                rx_nonzero)"

definition rx_Y :: matcher where
  "rx_Y = rx_then rx_digit (rx_then rx_digit (rx_then rx_digit rx_digit))"

text \<open>\<open>datetime.strptime(s, "%d%m%Y").date()\<close>; \<open>None\<close> is \<open>ValueError\<close>.\<close>

definition strptime_dmY :: "string \<Rightarrow> date option" where
  "strptime_dmY s =
     (case concat (map (\<lambda>(d, r1). concat (map (\<lambda>(m, r2). map (\<lambda>(y, r3). (d, m, y, r3)) (rx_Y r2)) (rx_m r1))) (rx_d s)) of
        [] \<Rightarrow> None
      | (d, m, y, rest) # _ \<Rightarrow>
          if rest \<noteq> [] then None else make_date (py_int y) (py_int m) (py_int d))"

text \<open>\<open>datetime.strptime(s, "%Y-%m-%d").date()\<close>; \<open>None\<close> is \<open>ValueError\<close>.\<close>

definition strptime_Ymd :: "string \<Rightarrow> date option" where
  "strptime_Ymd s =
     (case concat (map (\<lambda>(y, r1). concat (map (\<lambda>(_, r2). concat (map (\<lambda>(m, r3).
             concat (map (\<lambda>(_, r4). map (\<lambda>(d, r5). (y, m, d, r5)) (rx_d r4)) (rx_class ''-'' r3)))
             (rx_m r2))) (rx_class ''-'' r1))) (rx_Y s)) of
        [] \<Rightarrow> None
      | (y, m, d, rest) # _ \<Rightarrow>
          if rest \<noteq> [] then None else make_date (py_int y) (py_int m) (py_int d))"

section \<open>Exceptions and paths\<close>

text \<open>
  An exception is its class and its message (\<open>str(e)\<close>).  The classes are the ones the
  handlers of the repository tell apart; every other class is \<open>OtherException\<close>.
\<close>

datatype exn_class =
  RequestException | BadZipFile | ValueError | FileNotFoundError | OverflowError | OtherException

type_synonym exn = "exn_class \<times> string"

text \<open>
  A \<open>pathlib.Path\<close> is the list of its components.  \<open>name\<close> is the last component,
  \<open>stem\<close> is the name without its last suffix (the part from the last dot, unless that dot
  is the first or the last character of the name), \<open>str\<close> joins the components with
  slashes (and is \<open>.\<close> for the empty path), \<open>relative_to\<close> raises \<open>ValueError\<close> when
  the root is no prefix.
\<close>

type_synonym path = "string list"

definition path_name :: "path \<Rightarrow> string" where
  "path_name p = (if p = [] then [] else last p)"

definition rfind_dot :: "string \<Rightarrow> nat option" where
  "rfind_dot s =
     (if CHR ''.'' \<in> set s
      then Some (length s - 1 - length (takeWhile (\<lambda>c. c \<noteq> CHR ''.'') (rev s)))
      else None)"

definition path_stem :: "path \<Rightarrow> string" where
  "path_stem p =
     (let nm = path_name p
      in case rfind_dot nm of
           None \<Rightarrow> nm
         | Some i \<Rightarrow> if 0 < i \<and> i < length nm - 1 then take i nm else nm)"

fun join :: "string \<Rightarrow> string list \<Rightarrow> string" where
  "join sep [] = []"
| "join sep [c] = c"
| "join sep (c # cs) = c @ sep @ join sep cs"

definition path_str :: "path \<Rightarrow> string" where
  "path_str p = (if p = [] then ''.'' else join ''/'' p)"

definition relative_to :: "path \<Rightarrow> path \<Rightarrow> exn + path" where
  "relative_to p root =
     (if take (length root) p = root then Inr (drop (length root) p)
      else Inl (ValueError, path_str p @ '' is not in the subpath of '' @ path_str root))"

text \<open>The files of the file system, by path, with their bytes.  Directories are not tracked.\<close>

type_synonym filesystem = "path \<rightharpoonup> string"

definition path_exists :: "filesystem \<Rightarrow> path \<Rightarrow> bool" where
  "path_exists fs p = (fs p \<noteq> None)"

definition stat_size :: "filesystem \<Rightarrow> path \<Rightarrow> exn + int" where
  "stat_size fs p =
     (case fs p of
        None \<Rightarrow> Inl (FileNotFoundError, ''No such file or directory: '' @ path_str p)
      | Some bytes \<Rightarrow> Inr (int (length bytes)))"

section \<open>Holiday Oracle (\<open>holidays/indian_holidays.py\<close>)\<close>

definition DEFAULT_HOLIDAY_FILE :: path where
  "DEFAULT_HOLIDAY_FILE = [''holidays'', ''nse_holidays.csv'']"

definition RECURRING_HOLIDAYS :: "(int \<times> int) list" where
  "RECURRING_HOLIDAYS = [(1, 26), (5, 1), (8, 15), (10, 2), (12, 25)]"

text \<open>
  \<open>_loaded_holidays\<close> is \<open>None\<close>, the list of (month, day) pairs, or a set of dates.
  The values a caller passes are dates, datetimes (a date and a time of day) and
  (month, day) pairs.
\<close>

datatype holidays = MonthDays "(int \<times> int) list" | Dates "date set"

datatype pyval = PDate date | PDatetime date int int int | PPair int int

record HolidayManager =
  loaded_holidays :: "holidays option"
  using_recurring :: bool

definition HolidayManager_init :: HolidayManager where
  "HolidayManager_init = \<lparr>loaded_holidays = None, using_recurring = False\<rparr>"

text \<open>What reading the holiday file gives: no such file, an error while reading, or its lines.\<close>

datatype file_read = Missing | Unreadable | Lines "string list"

definition is_space :: "char \<Rightarrow> bool" where
  "is_space c = (of_char c \<in> set [9, 10, 11, 12, 13, 28, 29, 30, 31, 32, 133, 160 :: nat])"

definition py_strip :: "string \<Rightarrow> string" where
  "py_strip s = rev (dropWhile is_space (rev (dropWhile is_space s)))"

definition parse_holiday_lines :: "string list \<Rightarrow> date set" where
  "parse_holiday_lines ls =
     set (List.map_filter (\<lambda>raw_line.
            let line = py_strip raw_line
            in if line \<noteq> [] then strptime_Ymd line else None) ls)"

definition load_holidays :: "(path \<Rightarrow> file_read) \<Rightarrow> HolidayManager \<Rightarrow> path option \<Rightarrow> holidays \<times> HolidayManager" where
  "load_holidays read_file self holiday_file =
     (let file = (case holiday_file of None \<Rightarrow> DEFAULT_HOLIDAY_FILE | Some f \<Rightarrow> f)
      in case read_file file of
           Missing \<Rightarrow>
             (MonthDays RECURRING_HOLIDAYS,
              self\<lparr>using_recurring := True, loaded_holidays := Some (MonthDays RECURRING_HOLIDAYS)\<rparr>)
         | Lines ls \<Rightarrow>
             (Dates (parse_holiday_lines ls),
              self\<lparr>loaded_holidays := Some (Dates (parse_holiday_lines ls)), using_recurring := False\<rparr>)
         | Unreadable \<Rightarrow>
             (MonthDays RECURRING_HOLIDAYS,
              self\<lparr>using_recurring := True, loaded_holidays := Some (MonthDays RECURRING_HOLIDAYS)\<rparr>))"

definition get_holidays :: "(path \<Rightarrow> file_read) \<Rightarrow> HolidayManager \<Rightarrow> holidays \<times> HolidayManager" where
  "get_holidays read_file self =
     (case loaded_holidays self of
        None \<Rightarrow> load_holidays read_file self None
      | Some h \<Rightarrow> (h, self))"

text \<open>\<open>x in holidays\<close>: a date is found among dates only, a pair among pairs only.\<close>

fun py_in :: "pyval \<Rightarrow> holidays \<Rightarrow> bool" where
  "py_in (PDate d) (Dates S) = (d \<in> S)"
| "py_in (PPair m d) (MonthDays xs) = ((m, d) \<in> set xs)"
| "py_in _ _ = False"

fun val_date :: "pyval \<Rightarrow> date option" where
  "val_date (PDate d) = Some d"
| "val_date (PDatetime d _ _ _) = Some d"
| "val_date (PPair _ _) = None"

text \<open>
  \<open>is_public_holiday\<close> reads \<open>date.month\<close> and \<open>date.day\<close>, so its argument is a date or
  a datetime; a datetime is replaced by its \<open>date()\<close> before the exact-date test.
\<close>

definition is_public_holiday :: "(path \<Rightarrow> file_read) \<Rightarrow> HolidayManager \<Rightarrow> pyval \<Rightarrow> (exn + bool) \<times> HolidayManager" where
  "is_public_holiday read_file self date =
     (let (holidays, self') = get_holidays read_file self
      in case val_date date of
           None \<Rightarrow> (Inl (OtherException, ''no attribute month''), self')
         | Some d \<Rightarrow>
             if using_recurring self' then (Inr (py_in (PPair (month d) (day d)) holidays), self')
             else if py_in (PDate d) holidays then (Inr True, self')
             else (Inr ((month d, day d) \<in> set RECURRING_HOLIDAYS), self'))"

definition contains :: "(path \<Rightarrow> file_read) \<Rightarrow> HolidayManager \<Rightarrow> pyval \<Rightarrow> bool \<times> HolidayManager" where
  "contains read_file self item =
     (let (holidays, self') = get_holidays read_file self
      in if using_recurring self' then (py_in item holidays, self')
         else (py_in item holidays, self'))"

text \<open>
  The two states a load leaves the manager in: authoritative mode, with the set of dates read
  from the file, and recurring mode, with the fixed (month, day) list.
\<close>

definition authoritative_mode :: "HolidayManager \<Rightarrow> date set \<Rightarrow> bool" where
  "authoritative_mode self S = (loaded_holidays self = Some (Dates S) \<and> \<not> using_recurring self)"

definition recurring_mode :: "HolidayManager \<Rightarrow> bool" where
  "recurring_mode self =
     (loaded_holidays self = Some (MonthDays RECURRING_HOLIDAYS) \<and> using_recurring self)"

definition example_holiday_file :: "path \<Rightarrow> file_read" where
  "example_holiday_file f = Lines [''2025-03-14'', ''holiday'', [], '' 2025-10-21 '']"

section \<open>Conversion Pipeline (\<open>gcp_upload/create_local_structure.py\<close>)\<close>

text \<open>
  \<open>_get_file_datetime_from_name\<close>: the last eight characters of the stem (the whole stem
  when it is shorter), parsed with \<open>%d%m%Y\<close>; \<open>None\<close> on \<open>ValueError\<close>.
\<close>

definition get_file_datetime_from_name :: "path \<Rightarrow> date option" where
  "get_file_datetime_from_name filepath =
     (let stem = path_stem filepath;
          date_str = drop (length stem - 8) stem
      in strptime_dmY date_str)"

subsection \<open>The status ledger: \<open>ProcessingTracker\<close>\<close>

datatype Status = SUCCESS | SKIPPED | ERROR

definition Status_value :: "Status \<Rightarrow> string" where
  "Status_value s = (case s of SUCCESS \<Rightarrow> ''Success'' | SKIPPED \<Rightarrow> ''Skipped'' | ERROR \<Rightarrow> ''Error'')"

text \<open>
  One row of the ledger; the fields are the members of the enum \<open>StatusRecord\<close>.
  \<open>INPUT_FILE_SHAPE\<close> is \<open>None\<close> for the default \<open>0\<close> and the (rows, columns) pair of
  \<open>df.shape\<close> otherwise.
\<close>

record StatusRecord =
  FILE_NAME :: string
  PROCESSING_STATUS :: string
  OUTPUT_FILE_NAME :: string
  FILE_DATE :: string
  WEEKDAY :: string
  INPUT_FILE_SIZE :: int
  OUTPUT_FILE_SIZE :: int
  INPUT_FILE_SHAPE :: "(int \<times> int) option"
  INPUT_FILE_PATH :: string
  OUTPUT_FILE_PATH :: string
  COPIED_INPUT_FILE_PATH :: string

record ProcessingTracker =
  records :: "StatusRecord list"
  stats :: "Status \<rightharpoonup> int"
  input_root_path :: path
  output_root_path :: path

definition ProcessingTracker_init :: "path \<Rightarrow> path \<Rightarrow> ProcessingTracker" where
  "ProcessingTracker_init input_root output_root =
     \<lparr>records = [],
      stats = [SUCCESS \<mapsto> 0, SKIPPED \<mapsto> 0, ERROR \<mapsto> 0],
      input_root_path = input_root,
      output_root_path = output_root\<rparr>"

text \<open>
  The logger keeps the records of level warning and error, as (level, format, arguments);
  the records of level info and debug are left out.
\<close>

datatype level = LOG_WARNING | LOG_ERROR

type_synonym log_record = "level \<times> string \<times> string list"

text \<open>What a run of the conversion script works on: the files, its tracker and its log.\<close>

record conv_state =
  files :: filesystem
  tracker :: ProcessingTracker
  logged :: "log_record list"

definition log_to :: "conv_state \<Rightarrow> level \<Rightarrow> string \<Rightarrow> string list \<Rightarrow> conv_state" where
  "log_to st lv fmt args = st\<lparr>logged := logged st @ [(lv, fmt, args)]\<rparr>"

text \<open>
  \<open>add_record\<close>.  Everything that can raise (the \<open>stat\<close> of the input file and the three
  \<open>relative_to\<close>) comes before the first mutation, so a call that raises leaves no trace.
  The size of the output file is read only when the path is given and exists.
\<close>

definition add_record ::
  "conv_state \<Rightarrow> path \<Rightarrow> Status \<Rightarrow> path option \<Rightarrow> (int \<times> int) option \<Rightarrow> path option
     \<Rightarrow> exn + conv_state" where
  "add_record st input_filepath status output_filepath input_file_shape copied_input_filepath =
     (case stat_size (files st) input_filepath of
        Inl e \<Rightarrow> Inl e
      | Inr input_filesize \<Rightarrow>
     (case (case output_filepath of
              None \<Rightarrow> Inr 0
            | Some out \<Rightarrow> if path_exists (files st) out then stat_size (files st) out else Inr 0) of
        Inl e \<Rightarrow> Inl e
      | Inr output_size \<Rightarrow>
     (let output_filename = (case output_filepath of None \<Rightarrow> [] | Some out \<Rightarrow> path_name out)
      in case relative_to input_filepath (input_root_path (tracker st)) of
        Inl e \<Rightarrow> Inl e
      | Inr input_relative \<Rightarrow>
     (case (case output_filepath of
              None \<Rightarrow> Inr []
            | Some out \<Rightarrow> map_sum id path_str (relative_to out (output_root_path (tracker st)))) of
        Inl e \<Rightarrow> Inl e
      | Inr output_relative_path \<Rightarrow>
     (case (case copied_input_filepath of
              None \<Rightarrow> Inr []
            | Some c \<Rightarrow> map_sum id path_str (relative_to c (output_root_path (tracker st)))) of
        Inl e \<Rightarrow> Inl e
      | Inr copied_input_relative_path \<Rightarrow>
     (let date_for_display = get_file_datetime_from_name input_filepath;
          st1 = (case date_for_display of
                   None \<Rightarrow> log_to st LOG_ERROR ''Cannot parse date from filename: %s''
                             [path_str input_filepath]
                 | Some _ \<Rightarrow> st);
          file_date_str = (case date_for_display of None \<Rightarrow> ''N/A'' | Some d \<Rightarrow> strftime_Ymd_dash d);
          weekday_str = (case date_for_display of None \<Rightarrow> ''N/A'' | Some d \<Rightarrow> strftime_A d);
          row = \<lparr>FILE_NAME = path_name input_filepath,
                 PROCESSING_STATUS = Status_value status,
                 OUTPUT_FILE_NAME = output_filename,
                 FILE_DATE = file_date_str,
                 WEEKDAY = weekday_str,
                 INPUT_FILE_SIZE = input_filesize,
                 OUTPUT_FILE_SIZE = output_size,
                 INPUT_FILE_SHAPE = input_file_shape,
                 INPUT_FILE_PATH = path_str input_relative,
                 OUTPUT_FILE_PATH = output_relative_path,
                 COPIED_INPUT_FILE_PATH = copied_input_relative_path\<rparr>;
          t = tracker st1;
          t1 = t\<lparr>records := records t @ [row]\<rparr>;
          t2 = (case stats t1 status of
                  Some n \<Rightarrow> t1\<lparr>stats := (stats t1)(status \<mapsto> n + 1)\<rparr>
                | None \<Rightarrow> t1)
      in Inr (st1\<lparr>tracker := t2\<rparr>)))))))"

text \<open>The total that \<open>print_summary\<close> reports: \<open>sum(self.stats.values())\<close>.\<close>

definition total_files :: "ProcessingTracker \<Rightarrow> int" where
  "total_files t = sum_list (List.map_filter (stats t) [SUCCESS, SKIPPED, ERROR])"

text \<open>
  A sequence of \<open>add_record\<close> calls, each given by its five arguments.  A call that raises
  leaves the tracker as it was and the next call goes on from there.
\<close>

type_synonym add_call = "path \<times> Status \<times> path option \<times> (int \<times> int) option \<times> path option"

definition add_record_call :: "conv_state \<Rightarrow> add_call \<Rightarrow> conv_state" where
  "add_record_call st c =
     (case c of (i, s, out, shape, copied) \<Rightarrow>
        (case add_record st i s out shape copied of Inl _ \<Rightarrow> st | Inr st' \<Rightarrow> st'))"

definition add_record_calls :: "conv_state \<Rightarrow> add_call list \<Rightarrow> conv_state" where
  "add_record_calls st cs = foldl add_record_call st cs"

definition count_status :: "Status \<Rightarrow> StatusRecord list \<Rightarrow> int" where
  "count_status s rs = int (length (filter (\<lambda>r. PROCESSING_STATUS r = Status_value s) rs))"

subsection \<open>Writing the ledger: \<open>save_to_csv\<close>\<close>

text \<open>
  What the script takes from its libraries and its surroundings: whether \<open>mkdir\<close>,
  \<open>shutil.copy2\<close> and \<open>open\<close> fail on a path, what \<open>pandas.read_csv\<close> makes of the bytes
  of a file, what \<open>DataFrame.to_parquet\<close> writes, and how \<open>csv.DictWriter\<close> writes one row.
  A failed \<open>to_parquet\<close> gives its exception and what it left at the destination
  (\<open>None\<close>: the destination is as it was).
\<close>

record dataframe =
  df_shape :: "int \<times> int"
  df_rows :: "string list list"

datatype write_result = Written string | WriteFailed exn "string option"

record conv_env =
  mkdir_error :: "path \<Rightarrow> exn option"
  copy2_error :: "path \<Rightarrow> path \<Rightarrow> exn option"
  read_csv :: "string \<Rightarrow> exn + dataframe"
  to_parquet :: "dataframe \<Rightarrow> path \<Rightarrow> write_result"
  open_error :: "path \<Rightarrow> exn option"
  csv_line :: "string list \<Rightarrow> string"

definition fieldnames :: "string list" where
  "fieldnames =
     [''File name'', ''Processing status'', ''Output file name'', ''File date'', ''Weekday'',
      ''Input file size'', ''Output file size'', ''Input file shape'', ''Input file path'',
      ''Output file path'', ''Copied input file path'']"

definition shape_str :: "(int \<times> int) option \<Rightarrow> string" where
  "shape_str sh =
     (case sh of None \<Rightarrow> ''0'' | Some (r, c) \<Rightarrow> ''('' @ str_int r @ '', '' @ str_int c @ '')'')"

definition row_fields :: "StatusRecord \<Rightarrow> string list" where
  "row_fields r =
     [FILE_NAME r, PROCESSING_STATUS r, OUTPUT_FILE_NAME r, FILE_DATE r, WEEKDAY r,
      str_int (INPUT_FILE_SIZE r), str_int (OUTPUT_FILE_SIZE r), shape_str (INPUT_FILE_SHAPE r),
      INPUT_FILE_PATH r, OUTPUT_FILE_PATH r, COPIED_INPUT_FILE_PATH r]"

definition status_csv_text :: "conv_env \<Rightarrow> StatusRecord list \<Rightarrow> string" where
  "status_csv_text env rs = concat (map (csv_line env) (fieldnames # map row_fields rs))"

text \<open>
  The path of the ledger file carries \<open>SCRIPT_START_DATETIME\<close>, the time the module was
  loaded, here the argument \<open>stamp\<close>.
\<close>

definition status_csv_path :: "string \<Rightarrow> path" where
  "status_csv_path stamp = [''logs'', ''file_processing_status-'' @ stamp @ ''.csv'']"

definition save_to_csv :: "conv_env \<Rightarrow> string \<Rightarrow> conv_state \<Rightarrow> exn + conv_state" where
  "save_to_csv env stamp st =
     (let p = status_csv_path stamp
      in if path_exists (files st) p
         then Inr (log_to st LOG_WARNING ''Status report file already exists: %s'' [path_str p])
         else (case open_error env p of
                 Some e \<Rightarrow> Inl e
               | None \<Rightarrow> Inr (st\<lparr>files := (files st)(p \<mapsto> status_csv_text env (records (tracker st)))\<rparr>)))"

subsection \<open>The loop of \<open>_build_daily_parquet\<close>\<close>

definition partition_dir :: "path \<Rightarrow> string \<Rightarrow> date \<Rightarrow> path" where
  "partition_dir output_root kind d =
     output_root @ [kind, ''cm'', ''year='' @ str_int (year d), ''month='' @ two_digits (month d)]"

definition parquet_path :: "path \<Rightarrow> date \<Rightarrow> path" where
  "parquet_path output_root d =
     partition_dir output_root ''curated'' d @ [''day='' @ two_digits (day d) @ ''.parquet'']"

definition copy2 :: "conv_env \<Rightarrow> filesystem \<Rightarrow> path \<Rightarrow> path \<Rightarrow> exn + filesystem" where
  "copy2 env fs src dst =
     (case fs src of
        None \<Rightarrow> Inl (FileNotFoundError, ''No such file or directory: '' @ path_str src)
      | Some bytes \<Rightarrow>
          (case copy2_error env src dst of
             Some e \<Rightarrow> Inl e
           | None \<Rightarrow> Inr (fs(dst \<mapsto> bytes))))"

text \<open>The copy of the input file, made when \<open>force\<close> is set or the copy is not there yet.\<close>

definition copy_input :: "conv_env \<Rightarrow> bool \<Rightarrow> conv_state \<Rightarrow> path \<Rightarrow> path \<Rightarrow> exn + conv_state" where
  "copy_input env force st input_csv_path copied_input_path =
     (if force \<or> \<not> path_exists (files st) copied_input_path
      then map_sum id (\<lambda>fs. st\<lparr>files := fs\<rparr>)
             (copy2 env (files st) input_csv_path copied_input_path)
      else Inr st)"

text \<open>
  The body of the \<open>try\<close> of one file: read the CSV, write the Parquet file, record success.
  An exception comes with the state it was raised in, for the handler.
\<close>

definition convert_one ::
  "conv_env \<Rightarrow> conv_state \<Rightarrow> path \<Rightarrow> path \<Rightarrow> path \<Rightarrow> (exn \<times> conv_state) + conv_state" where
  "convert_one env st input_csv_path out_file_parquet copied_input_path =
     (case (case files st input_csv_path of
              None \<Rightarrow> Inl (FileNotFoundError, ''No such file or directory: '' @ path_str input_csv_path)
            | Some bytes \<Rightarrow> read_csv env bytes) of
        Inl e \<Rightarrow> Inl (e, st)
      | Inr df \<Rightarrow>
          (case to_parquet env df out_file_parquet of
             WriteFailed e left \<Rightarrow>
               Inl (e, case left of
                         None \<Rightarrow> st
                       | Some part \<Rightarrow> st\<lparr>files := (files st)(out_file_parquet \<mapsto> part)\<rparr>)
           | Written bytes \<Rightarrow>
               (let st1 = st\<lparr>files := (files st)(out_file_parquet \<mapsto> bytes)\<rparr>
                in case add_record st1 input_csv_path SUCCESS (Some out_file_parquet)
                          (Some (df_shape df)) (Some copied_input_path) of
                     Inl e \<Rightarrow> Inl (e, st1)
                   | Inr st2 \<Rightarrow> Inr st2)))"

text \<open>
  One pass of the loop, for the input file \<open>raw_root / rel\<close>.  \<open>rglob\<close> yields paths below
  \<open>raw_root\<close>, so an input file is given by its path \<open>rel\<close> relative to \<open>raw_root\<close>.
  \<open>Inl\<close> is an exception that leaves the loop.
\<close>

definition process_file ::
  "conv_env \<Rightarrow> bool \<Rightarrow> path \<Rightarrow> path \<Rightarrow> conv_state \<Rightarrow> path \<Rightarrow> exn + conv_state" where
  "process_file env force raw_root output_root st rel =
     (let input_csv_path = raw_root @ rel
      in case get_file_datetime_from_name input_csv_path of
        None \<Rightarrow>
          (let st1 = log_to st LOG_ERROR ''Cannot parse date from filename: %s'' [path_str input_csv_path];
               st2 = log_to st1 LOG_ERROR ''[ERROR] Cannot parse date from filename: %s'' [path_str rel]
           in add_record st2 input_csv_path ERROR None None None)
      | Some trade_date \<Rightarrow>
          (let raw_out_dir = partition_dir output_root ''raw'' trade_date
           in case mkdir_error env raw_out_dir of
             Some e \<Rightarrow> Inl e
           | None \<Rightarrow>
          (let copied_input_path = raw_out_dir @ [path_name input_csv_path]
           in case copy_input env force st input_csv_path copied_input_path of
             Inl e \<Rightarrow>
               add_record
                 (log_to st LOG_ERROR ''[ERROR] Failed to copy input file %s to %s: %s''
                    [path_str rel, path_str (drop (length output_root) copied_input_path), snd e])
                 input_csv_path ERROR None None None
           | Inr st1 \<Rightarrow>
          (let curated_out_dir = partition_dir output_root ''curated'' trade_date
           in case mkdir_error env curated_out_dir of
             Some e \<Rightarrow> Inl e
           | None \<Rightarrow>
          (let out_file_parquet = parquet_path output_root trade_date
           in if \<not> force \<and> path_exists (files st1) out_file_parquet
              then add_record st1 input_csv_path SKIPPED (Some out_file_parquet) None
                     (Some copied_input_path)
              else (case convert_one env st1 input_csv_path out_file_parquet copied_input_path of
                      Inr st2 \<Rightarrow> Inr st2
                    | Inl (e, st2) \<Rightarrow>
                        add_record
                          (log_to st2 LOG_ERROR ''[ERROR] Failed to process %s: %s'' [path_str rel, snd e])
                          input_csv_path ERROR None None (Some copied_input_path)))))))"

fun process_files ::
  "conv_env \<Rightarrow> bool \<Rightarrow> path \<Rightarrow> path \<Rightarrow> conv_state \<Rightarrow> path list \<Rightarrow> exn + conv_state" where
  "process_files env force raw_root output_root st [] = Inr st"
| "process_files env force raw_root output_root st (rel # rels) =
     (case process_file env force raw_root output_root st rel of
        Inl e \<Rightarrow> Inl e
      | Inr st' \<Rightarrow> process_files env force raw_root output_root st' rels)"

text \<open>
  \<open>_build_daily_parquet\<close> on the files \<open>fs\<close>, with \<open>input_csv_files\<close> the result of
  \<open>raw_root_path.rglob(pattern)\<close> (relative to \<open>raw_root\<close>).  \<open>print_summary\<close> only writes info records.
\<close>

definition build_daily_parquet ::
  "conv_env \<Rightarrow> string \<Rightarrow> path \<Rightarrow> path \<Rightarrow> string \<Rightarrow> bool \<Rightarrow> path list \<Rightarrow> filesystem
     \<Rightarrow> exn + conv_state" where
  "build_daily_parquet env stamp raw_root output_root pattern force input_csv_files fs =
     (let st0 = \<lparr>files = fs, tracker = ProcessingTracker_init raw_root output_root, logged = []\<rparr>
      in if input_csv_files = []
         then Inr (log_to st0 LOG_WARNING ''No CSV files matching '%s' found under %s'' [pattern, path_str raw_root])
         else (case process_files env force raw_root output_root st0 input_csv_files of
                 Inl e \<Rightarrow> Inl e
               | Inr st1 \<Rightarrow> save_to_csv env stamp st1))"

text \<open>
  Whether reading the CSV file or writing the Parquet file raises, for an input file and a
  destination: the exception, and what the failed write left at the destination.
\<close>

definition parse_write_failure ::
  "conv_env \<Rightarrow> filesystem \<Rightarrow> path \<Rightarrow> path \<Rightarrow> (exn \<times> string option) option" where
  "parse_write_failure env fs input_csv_path out_file_parquet =
     (case fs input_csv_path of
        None \<Rightarrow> Some ((FileNotFoundError, ''No such file or directory: '' @ path_str input_csv_path), None)
      | Some bytes \<Rightarrow>
          (case read_csv env bytes of
             Inl e \<Rightarrow> Some (e, None)
           | Inr df \<Rightarrow>
               (case to_parquet env df out_file_parquet of
                  WriteFailed e left \<Rightarrow> Some (e, left)
                | Written bytes \<Rightarrow> None)))"

text \<open>
  A unit is converted, in a file system, when the date of its name parses, its two folders
  can be made, and its input file, its raw copy and its curated file are there.
\<close>

definition converted :: "conv_env \<Rightarrow> path \<Rightarrow> path \<Rightarrow> filesystem \<Rightarrow> path \<Rightarrow> bool" where
  "converted env raw_root output_root fs rel =
     (case get_file_datetime_from_name (raw_root @ rel) of
        None \<Rightarrow> False
      | Some d \<Rightarrow>
          mkdir_error env (partition_dir output_root ''raw'' d) = None
          \<and> mkdir_error env (partition_dir output_root ''curated'' d) = None
          \<and> path_exists fs (partition_dir output_root ''raw'' d @ [path_name (raw_root @ rel)])
          \<and> path_exists fs (parquet_path output_root d)
          \<and> path_exists fs (raw_root @ rel))"

text \<open>
  How the row of a unit in a second run relates to its row in the first: it is the row of
  the same file, and it says \<open>Skipped\<close> unless the first said \<open>Error\<close>.
\<close>

definition rerun_outcome :: "StatusRecord \<Rightarrow> StatusRecord \<Rightarrow> bool" where
  "rerun_outcome r1 r2 =
     (FILE_NAME r2 = FILE_NAME r1
      \<and> (PROCESSING_STATUS r1 \<noteq> Status_value ERROR \<longrightarrow> PROCESSING_STATUS r2 = Status_value SKIPPED))"

text \<open>
  What a row of the ledger says of its unit: it is the row of that file, and it says
  \<open>Error\<close> unless the unit is converted in the file system.
\<close>

definition row_outcome ::
  "conv_env \<Rightarrow> path \<Rightarrow> path \<Rightarrow> filesystem \<Rightarrow> path \<Rightarrow> StatusRecord \<Rightarrow> bool" where
  "row_outcome env raw_root output_root fs rel r =
     (FILE_NAME r = path_name (raw_root @ rel)
      \<and> (PROCESSING_STATUS r = Status_value ERROR \<or> converted env raw_root output_root fs rel))"
subsection \<open>The date in a file name\<close>

text \<open>
  The date tail of a file name is the text that \<open>_get_file_datetime_from_name\<close> parses: the
  last eight characters of the stem.  \<open>ddmmyyyy\<close> formats a date as DDMMYYYY.
\<close>

definition date_tail :: "path \<Rightarrow> string" where
  "date_tail p = drop (length (path_stem p) - 8) (path_stem p)"

definition ddmmyyyy :: "date \<Rightarrow> string" where
  "ddmmyyyy d = two_digits (day d) @ two_digits (month d) @ four_digits (year d)"

text \<open>The texts of two characters that \<open>%d\<close> (blank-padded days apart) and \<open>%m\<close> match.\<close>

definition is_nonzero :: "char \<Rightarrow> bool" where
  "is_nonzero c = (c \<in> set ''123456789'')"

definition day_text2 :: "char \<Rightarrow> char \<Rightarrow> bool" where
  "day_text2 c1 c2 =
     (c1 = CHR ''3'' \<and> c2 \<in> set ''01'' \<or> c1 \<in> set ''12'' \<and> is_digit c2
      \<or> c1 = CHR ''0'' \<and> is_nonzero c2)"

definition month_text2 :: "char \<Rightarrow> char \<Rightarrow> bool" where
  "month_text2 c1 c2 = (c1 = CHR ''1'' \<and> c2 \<in> set ''012'' \<or> c1 = CHR ''0'' \<and> is_nonzero c2)"

text \<open>The invariant of the ledger: each counter is the number of rows of its outcome.\<close>

definition ledger_inv :: "ProcessingTracker \<Rightarrow> bool" where
  "ledger_inv t =
     (stats t SUCCESS = Some (count_status SUCCESS (records t))
      \<and> stats t SKIPPED = Some (count_status SKIPPED (records t))
      \<and> stats t ERROR = Some (count_status ERROR (records t))
      \<and> list_all (\<lambda>r. PROCESSING_STATUS r \<in> set (map Status_value [SUCCESS, SKIPPED, ERROR])) (records t))"

section \<open>Acquisition Pipeline (\<open>nse_download/download_nse_data_headless.py\<close>)\<close>

subsection \<open>State and surroundings\<close>

text \<open>One row of \<open>StatusLogger.statuses\<close>, with the keys of the dictionary as fields.\<close>

record status_entry =
  entry_date :: string
  entry_status :: string
  entry_reason :: string
  entry_file_path :: string
  entry_file_size :: int
  entry_file_shape :: string

text \<open>
  A response of the server: its status code, its \<open>Content-Type\<close> header (empty when
  absent), its body, and what \<open>response.json()\<close> makes of the body: no JSON
  (\<open>ValueError\<close>), a value that is false or empty, a list of objects (each given by the
  value of its key \<open>file\<close>, if it has one), or a value of another shape, on which the
  code raises the exception given.
\<close>

datatype json_payload = NotJson string | Falsy | Items "string option list" | Malformed exn

record response =
  status_code :: int
  content_type :: string
  content :: string
  json :: json_payload

text \<open>What the run does to the outside: the requests it sends and the pauses it makes.\<close>

datatype event = HttpGet string | Sleep int

text \<open>
  What the downloader takes from its surroundings: the answer to the \<open>k\<close>-th request of
  the run, the \<open>k\<close>-th reading of \<open>time.time()\<close> (in seconds), what \<open>zipfile\<close> finds in
  the bytes of an archive (its members, by name, or an exception), whether \<open>mkdir\<close> and
  \<open>open\<close> fail on a path, what \<open>csv.reader\<close> makes of the bytes of a file, the \<open>k\<close>-th
  reading of \<open>datetime.now()\<close> in the format \<open>%Y%m%d_%H%M%S\<close>, and how \<open>csv.DictWriter\<close>
  and \<open>json.dump\<close> write.
\<close>

record dl_env =
  http_get :: "nat \<Rightarrow> string \<Rightarrow> exn + response"
  time_time :: "nat \<Rightarrow> int"
  zip_members :: "string \<Rightarrow> exn + (string \<times> string) list"
  dl_mkdir_error :: "path \<Rightarrow> exn option"
  dl_open_error :: "path \<Rightarrow> exn option"
  csv_reader :: "string \<Rightarrow> exn + string list list"
  now_stamp :: "nat \<Rightarrow> string"
  dl_csv_line :: "string list \<Rightarrow> string"
  json_dump :: "(string \<times> string) list \<Rightarrow> string"

text \<open>
  The downloader with its status logger, the files, the events so far, the number of clock
  readings so far, and the local variable \<open>zip_path\<close> of \<open>download_and_extract\<close>, which
  its handlers read.
\<close>

record downloader =
  output_dir :: path
  existing_dir :: "path option"
  failed_dates :: "(string \<times> string) list"
  skipped_dates :: "string list"
  statuses :: "status_entry list"
  last_cookie_time :: int
  dl_files :: filesystem
  events :: "event list"
  clock_reads :: nat
  zip_path :: "path option"

definition BASE_LOG_DIR :: path where
  "BASE_LOG_DIR = [''logs'']"

definition HTTP_STATUS_NOT_FOUND :: int where
  "HTTP_STATUS_NOT_FOUND = 404"

definition HTTP_STATUS_OK :: int where
  "HTTP_STATUS_OK = 200"

definition WEEKEND_START :: int where
  "WEEKEND_START = 5"

definition COOKIE_REFRESH_INTERVAL :: int where
  "COOKIE_REFRESH_INTERVAL = 300"

definition NSEBhavcopyDownloader_init :: "filesystem \<Rightarrow> path \<Rightarrow> path option \<Rightarrow> downloader" where
  "NSEBhavcopyDownloader_init fs out existing =
     \<lparr>output_dir = out, existing_dir = existing, failed_dates = [], skipped_dates = [],
      statuses = [], last_cookie_time = 0, dl_files = fs, events = [], clock_reads = 0,
      zip_path = None\<rparr>"

subsection \<open>\<open>StatusLogger\<close>\<close>

definition tuple_str :: "int \<times> int \<Rightarrow> string" where
  "tuple_str sh = (case sh of (r, c) \<Rightarrow> ''('' @ str_int r @ '', '' @ str_int c @ '')'')"

definition add_status ::
  "downloader \<Rightarrow> string \<Rightarrow> string \<Rightarrow> string \<Rightarrow> path option \<Rightarrow> int option \<Rightarrow> (int \<times> int) option
     \<Rightarrow> downloader" where
  "add_status self date status reason file_path file_size file_shape =
     self\<lparr>statuses := statuses self @
       [\<lparr>entry_date = date,
         entry_status = status,
         entry_reason = reason,
         entry_file_path = (case file_path of None \<Rightarrow> [] | Some p \<Rightarrow> path_str p),
         entry_file_size = (case file_size of None \<Rightarrow> 0 | Some n \<Rightarrow> n),
         entry_file_shape = (case file_shape of None \<Rightarrow> [] | Some sh \<Rightarrow> tuple_str sh)\<rparr>]\<rparr>"

definition entry_fields :: "status_entry \<Rightarrow> string list" where
  "entry_fields e =
     [entry_date e, entry_status e, entry_reason e, entry_file_path e,
      str_int (entry_file_size e), entry_file_shape e]"

definition download_status_text :: "dl_env \<Rightarrow> status_entry list \<Rightarrow> string" where
  "download_status_text env es =
     concat (map (dl_csv_line env)
       ([''date'', ''status'', ''reason'', ''file_path'', ''file_size'', ''file_shape'']
        # map entry_fields es))"

text \<open>
  \<open>write_csv\<close> opens the path stamped with the current time for writing, whatever is there.
  \<open>Inl\<close> is the exception of a failing \<open>open\<close>.
\<close>

definition write_csv :: "dl_env \<Rightarrow> nat \<Rightarrow> downloader \<Rightarrow> exn + downloader" where
  "write_csv env k self =
     (let status_csv = BASE_LOG_DIR @ [''download_status-'' @ now_stamp env k @ ''.csv'']
      in case dl_open_error env status_csv of
           Some e \<Rightarrow> Inl e
         | None \<Rightarrow>
             Inr (self\<lparr>dl_files := (dl_files self)(status_csv \<mapsto> download_status_text env (statuses self))\<rparr>))"

definition write_failed_json :: "dl_env \<Rightarrow> nat \<Rightarrow> downloader \<Rightarrow> exn + downloader" where
  "write_failed_json env k self =
     (let failed_log = BASE_LOG_DIR @ [''failed_downloads-'' @ now_stamp env k @ ''.json'']
      in case dl_open_error env failed_log of
           Some e \<Rightarrow> Inl e
         | None \<Rightarrow>
             Inr (self\<lparr>dl_files := (dl_files self)(failed_log \<mapsto> json_dump env (failed_dates self))\<rparr>))"

subsection \<open>Requests, clock and folders\<close>

fun is_request :: "event \<Rightarrow> bool" where
  "is_request (HttpGet _) = True"
| "is_request (Sleep _) = False"

definition session_get :: "dl_env \<Rightarrow> downloader \<Rightarrow> string \<Rightarrow> (exn + response) \<times> downloader" where
  "session_get env self url =
     (http_get env (length (filter is_request (events self))) url,
      self\<lparr>events := events self @ [HttpGet url]\<rparr>)"

definition sleep :: "downloader \<Rightarrow> int \<Rightarrow> downloader" where
  "sleep self secs = self\<lparr>events := events self @ [Sleep secs]\<rparr>"

definition read_clock :: "dl_env \<Rightarrow> downloader \<Rightarrow> int \<times> downloader" where
  "read_clock env self =
     (time_time env (clock_reads self), self\<lparr>clock_reads := Suc (clock_reads self)\<rparr>)"

definition get_cookie :: "dl_env \<Rightarrow> downloader \<Rightarrow> bool \<times> downloader" where
  "get_cookie env self =
     (case session_get env self ''https://www.nseindia.com'' of
        (Inl e, self') \<Rightarrow> (False, self')
      | (Inr r, self') \<Rightarrow> (status_code r = HTTP_STATUS_OK, self'))"

definition build_url :: "date \<Rightarrow> string" where
  "build_url d =
     ''https://www.nseindia.com/api/reports'' @ ''?archives='' @
     ''%5B%7B%22name%22%3A%22Full%20Bhavcopy%20and%20Security%20Deliverable%20data%22%2C%22type%22%3A%22daily-reports%22%2C%22category%22%3A%22capital-market%22%2C%22section%22%3A%22equities%22%7D%5D''
     @ ''&date='' @ strftime_d_b_Y d @ ''&type=Archives''"

definition get_month_folder :: "dl_env \<Rightarrow> downloader \<Rightarrow> date \<Rightarrow> exn + path" where
  "get_month_folder env self d =
     (let month_folder = output_dir self @ [strftime_Ym d]
      in case dl_mkdir_error env month_folder of
           Some e \<Rightarrow> Inl e
         | None \<Rightarrow> Inr month_folder)"

definition expected_csv_name :: "date \<Rightarrow> string" where
  "expected_csv_name d = ''sec_bhavdata_full_'' @ strftime_dmY d @ ''.csv''"

definition get_csv_shape :: "dl_env \<Rightarrow> downloader \<Rightarrow> path \<Rightarrow> int \<times> int" where
  "get_csv_shape env self csv_path =
     (case dl_files self csv_path of
        None \<Rightarrow> (0, 0)
      | Some bytes \<Rightarrow>
          (case csv_reader env bytes of
             Inl e \<Rightarrow> (0, 0)
           | Inr [] \<Rightarrow> (0, 0)
           | Inr (header # rows) \<Rightarrow> (int (length rows), int (length header))))"

subsection \<open>\<open>download_and_extract\<close>\<close>

text \<open>
  A stretch of the body of the \<open>try\<close> ends by raising, by returning a value, or by going on
  with a result.
\<close>

datatype 'a step = Raised exn | Returned bool | Next 'a

fun contains_text :: "string \<Rightarrow> string \<Rightarrow> bool" where
  "contains_text pat [] = (pat = [])"
| "contains_text pat (c # cs) = (take (length pat) (c # cs) = pat \<or> contains_text pat cs)"

definition ends_with :: "string \<Rightarrow> string \<Rightarrow> bool" where
  "ends_with s suffix = (length suffix \<le> length s \<and> drop (length s - length suffix) s = suffix)"

definition fail_date :: "downloader \<Rightarrow> string \<Rightarrow> string \<Rightarrow> downloader" where
  "fail_date self date_str reason = self\<lparr>failed_dates := failed_dates self @ [(date_str, reason)]\<rparr>"

text \<open>The refresh of the session cookie: two readings of the clock, a request, a pause.\<close>

definition refresh_cookie :: "dl_env \<Rightarrow> downloader \<Rightarrow> downloader" where
  "refresh_cookie env self =
     (case read_clock env self of (now, s1) \<Rightarrow>
        if now - last_cookie_time s1 > COOKIE_REFRESH_INTERVAL
        then (case get_cookie env s1 of (_, s2) \<Rightarrow>
                (case read_clock env s2 of (now', s3) \<Rightarrow>
                   sleep (s3\<lparr>last_cookie_time := now'\<rparr>) 1))
        else s1)"

text \<open>
  The zip bytes of a response with status 200: the body itself, or, when the body is JSON,
  the body of a second request for the first listed file whose name ends in \<open>.zip\<close>.
  \<open>json_branch\<close> is the inner \<open>try\<close>; its handler turns every \<open>ValueError\<close> into the
  failure "Invalid response format".
\<close>

definition json_branch ::
  "dl_env \<Rightarrow> downloader \<Rightarrow> string \<Rightarrow> response \<Rightarrow> string step \<times> downloader" where
  "json_branch env self date_str r =
     (case json r of
        NotJson msg \<Rightarrow> (Raised (ValueError, msg), self)
      | Malformed e \<Rightarrow> (Raised e, self)
      | Falsy \<Rightarrow> (Returned False, fail_date self date_str ''No data in response'')
      | Items data \<Rightarrow>
          if data = [] then (Returned False, fail_date self date_str ''No data in response'')
          else (case List.find (\<lambda>f. ends_with f ''.zip'') (List.map_filter id data) of
                  None \<Rightarrow> (Returned False, fail_date self date_str ''No zip file in response'')
                | Some file_url \<Rightarrow>
                    (case session_get env self (''https://www.nseindia.com'' @ file_url) of
                       (Inl e, s1) \<Rightarrow> (Raised e, s1)
                     | (Inr zr, s1) \<Rightarrow>
                         if status_code zr \<noteq> HTTP_STATUS_OK
                         then (Returned False,
                               fail_date s1 date_str (''Zip download HTTP '' @ str_int (status_code zr)))
                         else (Next (content zr), s1))))"

definition zip_of_response ::
  "dl_env \<Rightarrow> downloader \<Rightarrow> string \<Rightarrow> response \<Rightarrow> string step \<times> downloader" where
  "zip_of_response env self date_str r =
     (if contains_text ''application/zip'' (content_type r) \<or> take 2 (content r) = ''PK''
      then (Next (content r), self)
      else (case json_branch env self date_str r of
              (Raised (ValueError, msg), s1) \<Rightarrow>
                (Returned False, fail_date s1 date_str ''Invalid response format (not JSON or ZIP)'')
            | other \<Rightarrow> other))"

text \<open>Save the archive, extract its members into the month folder, delete the archive.\<close>

definition save_and_extract ::
  "dl_env \<Rightarrow> downloader \<Rightarrow> date \<Rightarrow> path \<Rightarrow> string \<Rightarrow> unit step \<times> downloader" where
  "save_and_extract env self d month_folder zip_content =
     (let zp = month_folder @ [''bhavcopy_'' @ strftime_Ymd d @ ''.zip''];
          s1 = self\<lparr>zip_path := Some zp\<rparr>;
          s2 = s1\<lparr>dl_files := (dl_files s1)(zp \<mapsto> zip_content)\<rparr>
      in case zip_members env zip_content of
           Inl e \<Rightarrow> (Raised e, s2)
         | Inr members \<Rightarrow>
             (let extracted = foldl (\<lambda>fs (name, bytes). fs(month_folder @ [name] \<mapsto> bytes))
                                (dl_files s2) members
              in (Returned True, s2\<lparr>dl_files := extracted(zp := None)\<rparr>)))"

text \<open>The body of the \<open>try\<close>.\<close>

definition download_body :: "dl_env \<Rightarrow> downloader \<Rightarrow> date \<Rightarrow> unit step \<times> downloader" where
  "download_body env self d =
     (let date_str = strftime_d_b_Y d
      in case get_month_folder env self d of
        Inl e \<Rightarrow> (Raised e, self)
      | Inr month_folder \<Rightarrow>
          if path_exists (dl_files self) (month_folder @ [expected_csv_name d])
          then (Returned True, self\<lparr>skipped_dates := skipped_dates self @ [date_str]\<rparr>)
          else (case session_get env (refresh_cookie env self) (build_url d) of
                  (Inl e, s1) \<Rightarrow> (Raised e, s1)
                | (Inr r, s1) \<Rightarrow>
                    if status_code r = HTTP_STATUS_NOT_FOUND
                    then (Returned False, fail_date s1 date_str ''No data available (404)'')
                    else if status_code r \<noteq> HTTP_STATUS_OK
                    then (Returned False, fail_date s1 date_str (''HTTP '' @ str_int (status_code r)))
                    else (case zip_of_response env s1 date_str r of
                            (Raised e, s2) \<Rightarrow> (Raised e, s2)
                          | (Returned b, s2) \<Rightarrow> (Returned b, s2)
                          | (Next zip_content, s2) \<Rightarrow>
                              save_and_extract env s2 d month_folder zip_content)))"

text \<open>
  \<open>download_and_extract\<close>: the body with its three handlers.  Every exception of the body
  ends in one of them, so the function always returns.
\<close>

definition download_and_extract :: "dl_env \<Rightarrow> downloader \<Rightarrow> date \<Rightarrow> bool \<times> downloader" where
  "download_and_extract env self d =
     (let date_str = strftime_d_b_Y d
      in case download_body env (self\<lparr>zip_path := None\<rparr>) d of
        (Returned b, s1) \<Rightarrow> (b, s1)
      | (Next _, s1) \<Rightarrow> (True, s1)
      | (Raised (RequestException, msg), s1) \<Rightarrow>
          (False, fail_date s1 date_str (''Network error: '' @ msg))
      | (Raised (BadZipFile, msg), s1) \<Rightarrow>
          (let s2 = fail_date s1 date_str ''Invalid zip file''
           in (False,
               case zip_path s2 of
                 None \<Rightarrow> s2
               | Some zp \<Rightarrow> if path_exists (dl_files s2) zp
                            then s2\<lparr>dl_files := (dl_files s2)(zp := None)\<rparr> else s2))
      | (Raised (_, msg), s1) \<Rightarrow> (False, fail_date s1 date_str msg))"

subsection \<open>\<open>download_range\<close>\<close>

text \<open>
  The loop variable \<open>current_date\<close> is kept as its ordinal \<open>n\<close>, on which Python compares
  and adds days; the date itself is \<open>ord2ymd n\<close> and its weekday is \<open>(n + 6) mod 7\<close>.
\<close>

definition ordinal_weekday :: "int \<Rightarrow> int" where
  "ordinal_weekday n = (n + 6) mod 7"

definition add_day :: "int \<Rightarrow> exn + int" where
  "add_day n = (if n + 1 > MAXORDINAL then Inl (OverflowError, ''date value out of range'') else Inr (n + 1))"

text \<open>The first reason recorded for a date, or the default.\<close>

definition first_reason :: "(string \<times> string) list \<Rightarrow> string \<Rightarrow> string \<Rightarrow> string" where
  "first_reason failed date_str dflt =
     (case List.find (\<lambda>f. fst f = date_str) failed of None \<Rightarrow> dflt | Some f \<Rightarrow> snd f)"

text \<open>
  One pass of the loop for the date of ordinal \<open>n\<close>: the exception that leaves the loop or
  the next \<open>current_date\<close>, and the downloader after the pass.  Every way through the
  body ends with the row for the ledger, \<open>current_date += timedelta(days=1)\<close> and, after
  an attempt, a pause of two seconds.
\<close>

text \<open>The test of the loop for a file that is already in the existing directory.\<close>

definition in_existing_dir :: "downloader \<Rightarrow> date \<Rightarrow> bool" where
  "in_existing_dir self current_date =
     (case existing_dir self of
        None \<Rightarrow> False
      | Some ed \<Rightarrow> path_exists (dl_files self)
                     (ed @ [strftime_Ym current_date, expected_csv_name current_date]))"

definition finish_date :: "downloader \<Rightarrow> int \<Rightarrow> bool \<Rightarrow> (exn + int) \<times> downloader" where
  "finish_date self n pause =
     (case add_day n of
        Inl e \<Rightarrow> (Inl e, self)
      | Inr n' \<Rightarrow> (Inr n', if pause then sleep self 2 else self))"

definition download_range_body :: "dl_env \<Rightarrow> downloader \<Rightarrow> int \<Rightarrow> (exn + int) \<times> downloader" where
  "download_range_body env self n =
     (let current_date = ord2ymd n;
          date_str = strftime_d_b_Y current_date
      in if ordinal_weekday n \<ge> WEEKEND_START
         then finish_date
                (add_status self date_str ''skipped_weekend'' ''Market closed on weekends'' None None None)
                n False
         else if in_existing_dir self current_date
         then finish_date
                (add_status self date_str ''skipped_existing''
                   ''File already exists in existing directory'' None None None)
                n False
         else (case download_and_extract env self current_date of
                 (True, s1) \<Rightarrow>
                   if date_str \<in> set (skipped_dates s1)
                   then finish_date
                          (add_status s1 date_str ''skipped_existing'' ''File already exists''
                             None (Some 0) (Some (0, 0)))
                          n False
                   else if list_ex (\<lambda>f. fst f = date_str) (failed_dates s1)
                   then finish_date
                          (add_status s1 date_str ''failed''
                             (first_reason (failed_dates s1) date_str []) None (Some 0) (Some (0, 0)))
                          n True
                   else (case get_month_folder env s1 current_date of
                           Inl e \<Rightarrow> (Inl e, s1)
                         | Inr month_folder \<Rightarrow>
                             (let expected_csv = month_folder @ [expected_csv_name current_date]
                              in case stat_size (dl_files s1) expected_csv of
                                   Inl e \<Rightarrow> (Inl e, s1)
                                 | Inr file_size \<Rightarrow>
                                     finish_date
                                       (add_status s1 date_str ''success'' [] (Some expected_csv)
                                          (Some file_size) (Some (get_csv_shape env s1 expected_csv)))
                                       n True))
               | (False, s1) \<Rightarrow>
                   finish_date
                     (add_status s1 date_str ''failed''
                        (first_reason (failed_dates s1) date_str ''Unknown error'')
                        None (Some 0) (Some (0, 0)))
                     n True))"

lemma download_range_body_next:
  "download_range_body env self n = (Inr n', s1) \<Longrightarrow> n' = n + 1"
  by (auto simp: download_range_body_def finish_date_def add_day_def Let_def
      split: if_splits prod.splits sum.splits bool.splits option.splits)

function download_loop :: "dl_env \<Rightarrow> int \<Rightarrow> downloader \<Rightarrow> int \<Rightarrow> exn option \<times> downloader" where
  "download_loop env end_date self n =
     (if n \<le> end_date
      then (case download_range_body env self n of
              (Inl e, s1) \<Rightarrow> (Some e, s1)
            | (Inr n', s1) \<Rightarrow> download_loop env end_date s1 n')
      else (None, self))"
  by pat_completeness auto
termination
  by (relation "measure (\<lambda>(env, end_date, self, n). nat (end_date + 1 - n))")
    (auto dest: download_range_body_next [OF sym])

declare download_loop.simps [simp del]

text \<open>
  \<open>download_range\<close>: the first cookie, the loop, the ledger, and the list of failures when
  there is one.  \<open>Some e\<close> is an exception that leaves the function.
\<close>

definition download_range :: "dl_env \<Rightarrow> downloader \<Rightarrow> int \<Rightarrow> int \<Rightarrow> exn option \<times> downloader" where
  "download_range env self start_date end_date =
     (case download_loop env end_date (snd (get_cookie env self)) start_date of
        (Some e, s1) \<Rightarrow> (Some e, s1)
      | (None, s1) \<Rightarrow>
          (case write_csv env 0 s1 of
             Inl e \<Rightarrow> (Some e, s1)
           | Inr s2 \<Rightarrow>
               if failed_dates s2 \<noteq> []
               then (case write_failed_json env 1 s2 of
                       Inl e \<Rightarrow> (Some e, s2)
                     | Inr s3 \<Rightarrow> (None, s3))
               else (None, s2)))"

section \<open>Example surroundings\<close>

text \<open>
  A server that answers every request with a zip archive holding the CSV file of
  15 August 2025; a clock that moves one second per reading; folders and files that can
  always be made; rows written with commas and CR LF.  In \<open>misnamed_env\<close> the only member
  of the archive has another name than the one the downloader expects.
\<close>

definition example_zip_response :: response where
  "example_zip_response =
     \<lparr>status_code = 200, content_type = ''application/zip'', content = ''PK-bhavcopy'',
      json = NotJson ''Expecting value''\<rparr>"

definition example_env :: dl_env where
  "example_env =
     \<lparr>http_get = (\<lambda>k url. Inr example_zip_response),
      time_time = (\<lambda>k. 1755244800 + int k),
      zip_members = (\<lambda>bytes. Inr [(''sec_bhavdata_full_15082025.csv'', ''SYMBOL,CLOSE'')]),
      dl_mkdir_error = (\<lambda>p. None),
      dl_open_error = (\<lambda>p. None),
      csv_reader = (\<lambda>bytes. Inr [[''SYMBOL'', ''CLOSE'']]),
      now_stamp = (\<lambda>k. ''20250815_180000''),
      dl_csv_line = (\<lambda>fields. join '','' fields @ [CHR 0x0D, CHR 0x0A]),
      json_dump = (\<lambda>failed. ''[]'')\<rparr>"

definition misnamed_env :: dl_env where
  "misnamed_env =
     example_env\<lparr>zip_members := (\<lambda>bytes. Inr [(''bhavcopy_full.csv'', ''SYMBOL,CLOSE'')])\<rparr>"

definition example_downloader :: downloader where
  "example_downloader = NSEBhavcopyDownloader_init Map.empty [''data''] (Some [''existing''])"

text \<open>A downloader started where a ledger of the same second is already on disk.\<close>

definition example_ledger_path :: path where
  "example_ledger_path = [''logs'', ''download_status-20250815_180000.csv'']"

definition second_downloader :: downloader where
  "second_downloader =
     NSEBhavcopyDownloader_init [example_ledger_path \<mapsto> ''ledger of the first run''] [''data''] None"

text \<open>
  For the conversion: a reader that rejects the bytes \<open>broken\<close> and reads everything else as
  one row of two columns, a writer that writes, folders and files that can always be made.
  In \<open>failing_write_env\<close> the writer fails after the first bytes are on disk.
\<close>

definition example_conv_env :: conv_env where
  "example_conv_env =
     \<lparr>mkdir_error = (\<lambda>p. None),
      copy2_error = (\<lambda>src dst. None),
      read_csv = (\<lambda>bytes. if bytes = ''broken'' then Inl (OtherException, ''Error tokenizing data'')
                            else Inr \<lparr>df_shape = (1, 2), df_rows = [[''SBIN'', ''812.5'']]\<rparr>),
      to_parquet = (\<lambda>df p. Written ''PAR1-day-PAR1''),
      open_error = (\<lambda>p. None),
      csv_line = (\<lambda>fields. join '','' fields @ [CHR 0x0D, CHR 0x0A])\<rparr>"

definition failing_write_env :: conv_env where
  "failing_write_env =
     example_conv_env\<lparr>to_parquet :=
       (\<lambda>df p. WriteFailed (OtherException, ''No space left on device'') (Some ''PAR1-da''))\<rparr>"

definition example_input :: path where
  "example_input = [''201908'', ''sec_bhavdata_full_23082019.csv'']"

definition undated_input :: path where
  "undated_input = [''201908'', ''sec_bhavdata_full_latest.csv'']"

definition example_raw_files :: filesystem where
  "example_raw_files =
     [[''raw'', ''201908'', ''sec_bhavdata_full_23082019.csv''] \<mapsto> ''SYMBOL,CLOSE'',
      [''raw'', ''201908'', ''sec_bhavdata_full_latest.csv''] \<mapsto> ''SYMBOL,CLOSE'']"

definition example_conv_state :: conv_state where
  "example_conv_state =
     \<lparr>files = example_raw_files, tracker = ProcessingTracker_init [''raw''] [''out''], logged = []\<rparr>"

text \<open>A state in which the ledger file of the run is already there.\<close>

definition second_conv_state :: conv_state where
  "second_conv_state =
     example_conv_state\<lparr>files :=
       example_raw_files(status_csv_path ''20250815_180000'' \<mapsto> ''ledger of the first call'')\<rparr>"

text \<open>The example state once the input file of 23 August 2019 is copied.\<close>

definition copied_conv_state :: conv_state where
  "copied_conv_state =
     example_conv_state\<lparr>files :=
       example_raw_files
         ([''out'', ''raw'', ''cm'', ''year=2019'', ''month=08'', ''sec_bhavdata_full_23082019.csv'']
            \<mapsto> ''SYMBOL,CLOSE'')\<rparr>"

text \<open>Two runs of the conversion over the same two input files, the second on the files the
  first left.\<close>

definition first_run :: "exn + conv_state" where
  "first_run =
     build_daily_parquet example_conv_env ''20250815_180000'' [''raw''] [''out'']
       ''sec_bhavdata_full_*.csv'' False [example_input, undated_input] example_raw_files"

definition second_run :: "exn + conv_state" where
  "second_run =
     build_daily_parquet example_conv_env ''20250815_190000'' [''raw''] [''out'']
       ''sec_bhavdata_full_*.csv'' False [example_input, undated_input] (files (projr first_run))"

section \<open>Properties of the Holiday Oracle\<close>

lemma get_holidays_loaded [simp]:
  "loaded_holidays self = Some h \<Longrightarrow> get_holidays read_file self = (h, self)"
  by (simp add: get_holidays_def)

lemma load_holidays_lines:
  "read_file DEFAULT_HOLIDAY_FILE = Lines ls \<Longrightarrow>
   authoritative_mode (snd (load_holidays read_file self None)) (parse_holiday_lines ls)"
  by (simp add: load_holidays_def authoritative_mode_def)

lemma load_holidays_missing:
  "read_file DEFAULT_HOLIDAY_FILE = Missing \<Longrightarrow>
   recurring_mode (snd (load_holidays read_file self None))"
  by (simp add: load_holidays_def recurring_mode_def)

lemma parse_example_lines:
  "parse_holiday_lines [''2025-03-14'', ''holiday'', [], '' 2025-10-21 ''] =
     {\<lparr>year = 2025, month = 3, day = 14\<rparr>, \<lparr>year = 2025, month = 10, day = 21\<rparr>}"
  by code_simp

lemma example_file_authoritative:
  "authoritative_mode (snd (load_holidays example_holiday_file HolidayManager_init None))
     {\<lparr>year = 2025, month = 3, day = 14\<rparr>, \<lparr>year = 2025, month = 10, day = 21\<rparr>}"
  using load_holidays_lines [of example_holiday_file _ HolidayManager_init]
  by (simp add: example_holiday_file_def parse_example_lines)

text \<open>
  Claim C5.  With a date set \<open>S\<close> loaded from the holiday file (authoritative mode),
  \<open>is_public_holiday\<close> answers true exactly for the dates of \<open>S\<close> and for the dates whose
  (month, day) is one of the five recurring pairs; in recurring mode it answers true exactly
  for the dates whose (month, day) is one of those pairs, whatever the year.  The argument
  may be a date or a datetime, and the manager is left as it was.
\<close>

theorem is_public_holiday_by_mode:
  assumes "val_date v = Some d"
  shows "(authoritative_mode self S \<longrightarrow>
            is_public_holiday read_file self v =
              (Inr (d \<in> S \<or> (month d, day d) \<in> {(1, 26), (5, 1), (8, 15), (10, 2), (12, 25)}), self))
       \<and> (recurring_mode self \<longrightarrow>
            is_public_holiday read_file self v =
              (Inr ((month d, day d) \<in> {(1, 26), (5, 1), (8, 15), (10, 2), (12, 25)}), self))"
  using assms
  by (simp add: is_public_holiday_def authoritative_mode_def recurring_mode_def
      RECURRING_HOLIDAYS_def)

theorem is_public_holiday_by_mode_witness:
  "fst (is_public_holiday example_holiday_file
         (snd (load_holidays example_holiday_file HolidayManager_init None))
         (PDate \<lparr>year = 2031, month = 1, day = 26\<rparr>)) = Inr True
   \<and> fst (is_public_holiday (\<lambda>_. Missing) (snd (load_holidays (\<lambda>_. Missing) HolidayManager_init None))
         (PDatetime \<lparr>year = 2019, month = 1, day = 27\<rparr> 0 0 0)) = Inr False"
proof -
  have r: "recurring_mode (snd (load_holidays (\<lambda>_. Missing) HolidayManager_init None))"
    by (rule load_holidays_missing) simp
  have v1: "val_date (PDate \<lparr>year = 2031, month = 1, day = 26\<rparr>) = Some \<lparr>year = 2031, month = 1, day = 26\<rparr>"
    by simp
  have v2: "val_date (PDatetime \<lparr>year = 2019, month = 1, day = 27\<rparr> 0 0 0) = Some \<lparr>year = 2019, month = 1, day = 27\<rparr>"
    by simp
  show ?thesis
    using is_public_holiday_by_mode [OF v1, of _ _ example_holiday_file]
      is_public_holiday_by_mode [OF v2, of _ _ "\<lambda>_. Missing"] example_file_authoritative r
    by simp
qed

text \<open>
  Claim C10.  In authoritative mode the two membership interfaces disagree exactly on the
  recurring holidays that the loaded set does not list: there \<open>is_public_holiday\<close> answers
  true and \<open>__contains__\<close>, which tests the loaded set only, answers false.
\<close>

theorem contains_misses_recurring:
  assumes "authoritative_mode self S"
  shows "(fst (is_public_holiday read_file self (PDate d)) = Inr True
            \<and> fst (contains read_file self (PDate d)) = False)
         \<longleftrightarrow> (d \<notin> S \<and> (month d, day d) \<in> set RECURRING_HOLIDAYS)"
  using assms
  by (auto simp: is_public_holiday_def contains_def authoritative_mode_def)

theorem contains_misses_recurring_witness:
  "fst (is_public_holiday example_holiday_file
         (snd (load_holidays example_holiday_file HolidayManager_init None))
         (PDate \<lparr>year = 2025, month = 8, day = 15\<rparr>)) = Inr True
   \<and> fst (contains example_holiday_file
         (snd (load_holidays example_holiday_file HolidayManager_init None))
         (PDate \<lparr>year = 2025, month = 8, day = 15\<rparr>)) = False"
  using contains_misses_recurring [OF example_file_authoritative, of example_holiday_file
      "\<lparr>year = 2025, month = 8, day = 15\<rparr>"]
  by (simp add: RECURRING_HOLIDAYS_def)

section \<open>Properties of the status ledger\<close>

lemma Status_value_inj [simp]: "Status_value s = Status_value s' \<longleftrightarrow> s = s'"
  by (cases s; cases s') (simp_all add: Status_value_def)

lemma add_record_Inr:
  assumes "add_record st i s out sh c = Inr st'"
  shows "\<exists>row. PROCESSING_STATUS row = Status_value s
           \<and> records (tracker st') = records (tracker st) @ [row]
           \<and> stats (tracker st') =
               (case stats (tracker st) s of
                  Some n \<Rightarrow> (stats (tracker st))(s \<mapsto> n + 1)
                | None \<Rightarrow> stats (tracker st))
           \<and> files st' = files st
           \<and> input_root_path (tracker st') = input_root_path (tracker st)
           \<and> output_root_path (tracker st') = output_root_path (tracker st)"
  using assms
  by (auto simp: add_record_def Let_def log_to_def split: sum.splits option.splits)

lemma ledger_inv_init: "ledger_inv (ProcessingTracker_init i out)"
  by (simp add: ledger_inv_def ProcessingTracker_init_def count_status_def)

lemma ledger_inv_add_record:
  assumes "ledger_inv (tracker st)" and "add_record st i s out sh c = Inr st'"
  shows "ledger_inv (tracker st')"
proof -
  from add_record_Inr [OF assms(2)] obtain row where
    row: "PROCESSING_STATUS row = Status_value s"
    and recs: "records (tracker st') = records (tracker st) @ [row]"
    and st: "stats (tracker st') =
               (case stats (tracker st) s of
                  Some n \<Rightarrow> (stats (tracker st))(s \<mapsto> n + 1)
                | None \<Rightarrow> stats (tracker st))"
    by blast
  show ?thesis
    using assms(1) row recs st
    by (cases s) (simp_all add: ledger_inv_def count_status_def)
qed

lemma ledger_inv_call: "ledger_inv (tracker st) \<Longrightarrow> ledger_inv (tracker (add_record_call st c))"
  by (auto simp: add_record_call_def split: prod.splits sum.splits intro: ledger_inv_add_record)

lemma ledger_inv_calls: "ledger_inv (tracker st) \<Longrightarrow> ledger_inv (tracker (add_record_calls st cs))"
  unfolding add_record_calls_def
  by (induction cs arbitrary: st) (simp_all add: ledger_inv_call)

lemma count_status_total:
  "list_all (\<lambda>r. PROCESSING_STATUS r \<in> set (map Status_value [SUCCESS, SKIPPED, ERROR])) rs \<Longrightarrow>
   count_status SUCCESS rs + count_status SKIPPED rs + count_status ERROR rs = int (length rs)"
  by (induction rs) (auto simp: count_status_def Status_value_def)

lemma ledger_inv_total: "ledger_inv t \<Longrightarrow> total_files t = int (length (records t))"
  using count_status_total [of "records t"]
  by (simp add: ledger_inv_def total_files_def List.map_filter_simps)

text \<open>
  Claim C4.  After any sequence of \<open>add_record\<close> calls on a new tracker, whatever the
  files and whichever calls raise, the three counters sum to the number of rows, and each
  counter is the number of rows of its own outcome: every row appended has moved exactly
  one counter by one.
\<close>

theorem add_record_counts:
  "let t = tracker (add_record_calls (st\<lparr>tracker := ProcessingTracker_init i out\<rparr>) cs)
   in total_files t = int (length (records t))
      \<and> stats t SUCCESS = Some (count_status SUCCESS (records t))
      \<and> stats t SKIPPED = Some (count_status SKIPPED (records t))
      \<and> stats t ERROR = Some (count_status ERROR (records t))"
proof -
  have "ledger_inv (tracker (add_record_calls (st\<lparr>tracker := ProcessingTracker_init i out\<rparr>) cs))"
    by (rule ledger_inv_calls) (simp add: ledger_inv_init)
  then show ?thesis
    using ledger_inv_total by (simp add: ledger_inv_def Let_def)
qed

section \<open>Properties of the Acquisition Pipeline\<close>

lemma events_fail_date [simp]: "events (fail_date s d r) = events s"
  by (simp add: fail_date_def)

lemma events_add_status [simp]: "events (add_status s d st r p sz sh) = events s"
  by (simp add: add_status_def)

lemma events_sleep [simp]: "events (sleep s n) = events s @ [Sleep n]"
  by (simp add: sleep_def)

lemma events_session_get [simp]: "events (snd (session_get env s url)) = events s @ [HttpGet url]"
  by (simp add: session_get_def)

lemma statuses_session_get [simp]: "statuses (snd (session_get env s url)) = statuses s"
  by (simp add: session_get_def)

lemma events_refresh_cookie: "\<exists>es. events (refresh_cookie env s) = events s @ es"
  by (simp add: refresh_cookie_def read_clock_def get_cookie_def session_get_def
      split: prod.splits sum.splits)

lemma events_json_branch: "\<exists>es. events (snd (json_branch env s d r)) = events s @ es"
  by (simp add: json_branch_def session_get_def split: json_payload.splits option.splits sum.splits)

lemma events_zip_of_response: "\<exists>es. events (snd (zip_of_response env s d r)) = events s @ es"
proof (cases "contains_text ''application/zip'' (content_type r) \<or> take 2 (content r) = ''PK''")
  case True
  then show ?thesis by (simp add: zip_of_response_def)
next
  case False
  obtain o1 s1 where j: "json_branch env s d r = (o1, s1)" by (cases "json_branch env s d r")
  from events_json_branch [of env s d r] j obtain es where "events s1 = events s @ es" by auto
  then show ?thesis
    using False j
    by (simp add: zip_of_response_def split: step.splits prod.splits exn_class.splits)
qed

lemma events_save_and_extract: "events (snd (save_and_extract env s d mf z)) = events s"
  by (simp add: save_and_extract_def Let_def split: sum.splits)

lemma events_download_body_skip:
  assumes "dl_mkdir_error env (output_dir s @ [strftime_Ym d]) \<noteq> None
           \<or> path_exists (dl_files s) (output_dir s @ [strftime_Ym d, expected_csv_name d])"
  shows "events (snd (download_body env s d)) = events s"
  using assms
  by (cases "dl_mkdir_error env (output_dir s @ [strftime_Ym d])")
    (auto simp: download_body_def get_month_folder_def Let_def)

lemma events_download_body_fetch:
  assumes "dl_mkdir_error env (output_dir s @ [strftime_Ym d]) = None"
    and "\<not> path_exists (dl_files s) (output_dir s @ [strftime_Ym d, expected_csv_name d])"
  shows "\<exists>es. events (snd (download_body env s d)) = events s @ es \<and> HttpGet (build_url d) \<in> set es"
proof -
  obtain r1 s1 where sg: "session_get env (refresh_cookie env s) (build_url d) = (r1, s1)"
    by (cases "session_get env (refresh_cookie env s) (build_url d)")
  obtain es0 where e0: "events (refresh_cookie env s) = events s @ es0"
    using events_refresh_cookie by blast
  have e1: "events s1 = events s @ (es0 @ [HttpGet (build_url d)])"
    using events_session_get [of env "refresh_cookie env s" "build_url d"] sg e0 by simp
  have ext: "\<exists>es. events s' = events s @ es \<and> HttpGet (build_url d) \<in> set es"
    if "events s' = events s1 @ es2" for s' es2
  proof -
    have "events s' = events s @ (es0 @ [HttpGet (build_url d)] @ es2)"
      using that e1 by simp
    moreover have "HttpGet (build_url d) \<in> set (es0 @ [HttpGet (build_url d)] @ es2)"
      by simp
    ultimately show ?thesis by blast
  qed
  show ?thesis
  proof (cases r1)
    case (Inl e)
    then have "events (snd (download_body env s d)) = events s1 @ []"
      using assms sg by (simp add: download_body_def get_month_folder_def Let_def)
    then show ?thesis by (rule ext)
  next
    case (Inr r)
    obtain o2 s2 where zr: "zip_of_response env s1 (strftime_d_b_Y d) r = (o2, s2)"
      by (cases "zip_of_response env s1 (strftime_d_b_Y d) r")
    obtain es2 where e2: "events s2 = events s1 @ es2"
      using events_zip_of_response [of env s1 "strftime_d_b_Y d" r] zr by auto
    have "events (snd (download_body env s d)) = events s1 @ [] \<or>
          events (snd (download_body env s d)) = events s1 @ es2"
      using assms sg Inr zr e2
      by (cases o2)
        (simp_all add: download_body_def get_month_folder_def Let_def events_save_and_extract)
    then show ?thesis using ext by blast
  qed
qed

lemma events_download_and_extract:
  "events (snd (download_and_extract env s d)) = events (snd (download_body env (s\<lparr>zip_path := None\<rparr>) d))"
  by (auto simp: download_and_extract_def Let_def
      split: prod.splits step.splits exn_class.splits option.splits)

lemma events_finish_date:
  "\<exists>es. events (snd (finish_date s n b)) = events s @ es \<and> set es \<subseteq> {Sleep 2}"
  by (auto simp: finish_date_def split: sum.splits)

lemma events_after_attempt:
  assumes "ordinal_weekday n < 5" and "\<not> in_existing_dir self (ord2ymd n)"
  shows "\<exists>es. events (snd (download_range_body env self n))
               = events (snd (download_and_extract env self (ord2ymd n))) @ es
             \<and> set es \<subseteq> {Sleep 2}"
proof -
  let ?d = "ord2ymd n"
  obtain b s1 where de: "download_and_extract env self ?d = (b, s1)"
    by (cases "download_and_extract env self ?d")
  have fin: "\<exists>es. events (snd (finish_date s n p)) = events s1 @ es \<and> set es \<subseteq> {Sleep 2}"
    if "events s = events s1" for s p
    using events_finish_date [of s n p] that by simp
  have stay: "\<exists>es. events s1 = events s1 @ es \<and> set es \<subseteq> {Sleep 2}"
    by simp
  show ?thesis
  proof (cases b)
    case True
    then show ?thesis
      using assms de
      by (simp add: download_range_body_def Let_def WEEKEND_START_def fin stay split: sum.splits)
  next
    case False
    then show ?thesis
      using assms de
      by (simp add: download_range_body_def Let_def WEEKEND_START_def fin)
  qed
qed

lemma events_no_attempt:
  assumes "\<not> ordinal_weekday n < 5 \<or> in_existing_dir self (ord2ymd n)"
  shows "events (snd (download_range_body env self n)) = events self"
  using assms
  by (auto simp: download_range_body_def Let_def WEEKEND_START_def finish_date_def
      split: sum.splits)

text \<open>
  Claim C1, as amended.  The pass of the loop takes no holiday calendar.  The events of a
  pass come after those that were there before it, and the request for the report of the
  date is among the events of the pass exactly when the date is neither a Saturday nor a
  Sunday, its CSV file is neither in the existing directory nor in the month folder of the
  output directory, and that month folder can be made: whether the date is a market
  holiday or not plays no part.
\<close>

theorem fetch_whatever_the_calendar:
  "\<exists>es. events (snd (download_range_body env self n)) = events self @ es
     \<and> (HttpGet (build_url (ord2ymd n)) \<in> set es \<longleftrightarrow>
          ordinal_weekday n < 5
          \<and> \<not> in_existing_dir self (ord2ymd n)
          \<and> \<not> path_exists (dl_files self)
                (output_dir self @ [strftime_Ym (ord2ymd n), expected_csv_name (ord2ymd n)])
          \<and> dl_mkdir_error env (output_dir self @ [strftime_Ym (ord2ymd n)]) = None)"
proof (cases "ordinal_weekday n < 5 \<and> \<not> in_existing_dir self (ord2ymd n)")
  case False
  then have "events (snd (download_range_body env self n)) = events self @ []"
    using events_no_attempt [of n self env] by auto
  with False show ?thesis by fastforce
next
  case True
  let ?d = "ord2ymd n"
  let ?s = "self\<lparr>zip_path := None\<rparr>"
  from True events_after_attempt [of n self env] obtain tl where
    t: "events (snd (download_range_body env self n))
          = events (snd (download_body env ?s ?d)) @ tl" "set tl \<subseteq> {Sleep 2}"
    by (auto simp: events_download_and_extract)
  have nt: "HttpGet (build_url ?d) \<notin> set tl"
    using t(2) by auto
  show ?thesis
  proof (cases "\<not> path_exists (dl_files self) (output_dir self @ [strftime_Ym ?d, expected_csv_name ?d])
                \<and> dl_mkdir_error env (output_dir self @ [strftime_Ym ?d]) = None")
    case c: True
    then have "\<exists>es. events (snd (download_body env ?s ?d)) = events ?s @ es
                 \<and> HttpGet (build_url ?d) \<in> set es"
      by (intro events_download_body_fetch) simp_all
    then obtain es where es: "events (snd (download_body env ?s ?d)) = events self @ es"
      "HttpGet (build_url ?d) \<in> set es"
      by auto
    have "events (snd (download_range_body env self n)) = events self @ (es @ tl)"
      using t(1) es(1) by simp
    moreover have "HttpGet (build_url ?d) \<in> set (es @ tl)"
      using es(2) by simp
    ultimately show ?thesis
      using True c by blast
  next
    case c: False
    then have "events (snd (download_body env ?s ?d)) = events ?s"
      by (intro events_download_body_skip) auto
    then have "events (snd (download_range_body env self n)) = events self @ tl"
      using t(1) by simp
    then show ?thesis
      using nt c by blast
  qed
qed

text \<open>
  Claim C8.  For a date that is a Saturday or a Sunday the pass of the loop sends no
  request and makes no pause (the events are as before: no session refresh, no fetch), and
  it appends exactly one row, with status \<open>skipped_weekend\<close> and the reason "Market closed
  on weekends".
\<close>

theorem weekend_is_skipped:
  assumes "ordinal_weekday n = 5 \<or> ordinal_weekday n = 6"
  shows "events (snd (download_range_body env self n)) = events self
       \<and> statuses (snd (download_range_body env self n)) =
           statuses self @
             [\<lparr>entry_date = strftime_d_b_Y (ord2ymd n), entry_status = ''skipped_weekend'',
               entry_reason = ''Market closed on weekends'', entry_file_path = [],
               entry_file_size = 0, entry_file_shape = []\<rparr>]"
  using assms
  by (auto simp: download_range_body_def Let_def WEEKEND_START_def finish_date_def add_status_def
      split: sum.splits)

theorem weekend_is_skipped_witness:
  "(ordinal_weekday 739479 = 5 \<or> ordinal_weekday 739479 = 6)
   \<and> events (snd (download_range_body example_env example_downloader 739479)) = []
   \<and> statuses (snd (download_range_body example_env example_downloader 739479)) =
         [\<lparr>entry_date = ''16-Aug-2025'', entry_status = ''skipped_weekend'',
           entry_reason = ''Market closed on weekends'', entry_file_path = [],
           entry_file_size = 0, entry_file_shape = []\<rparr>]"
proof -
  have w: "ordinal_weekday 739479 = 5 \<or> ordinal_weekday 739479 = 6"
    by (simp add: ordinal_weekday_def)
  have d: "strftime_d_b_Y (ord2ymd 739479) = ''16-Aug-2025''"
    by code_simp
  have e: "events example_downloader = []" "statuses example_downloader = []"
    by (simp_all add: example_downloader_def NSEBhavcopyDownloader_init_def)
  show ?thesis
    using weekend_is_skipped [OF w, of example_env example_downloader] w d e by simp
qed

text \<open>
  Friday 15 August 2025 is a market holiday for the Holiday Oracle, and the pass of the loop
  for that date refreshes the session, fetches the report and records a success.
\<close>

theorem holiday_is_fetched_counterexample:
  "ordinal_weekday 739478 = 4
   \<and> fst (is_public_holiday example_holiday_file HolidayManager_init (PDate (ord2ymd 739478)))
       = Inr True
   \<and> events (snd (download_range_body example_env example_downloader 739478)) =
       [HttpGet ''https://www.nseindia.com'', Sleep 1, HttpGet (build_url (ord2ymd 739478)), Sleep 2]
   \<and> map entry_status (statuses (snd (download_range_body example_env example_downloader 739478)))
       = [''success'']"
  by code_simp

theorem fetch_whatever_the_calendar_witness:
  "ordinal_weekday 739478 < 5
   \<and> \<not> in_existing_dir example_downloader (ord2ymd 739478)
   \<and> \<not> path_exists (dl_files example_downloader)
         (output_dir example_downloader @ [strftime_Ym (ord2ymd 739478), expected_csv_name (ord2ymd 739478)])
   \<and> dl_mkdir_error example_env (output_dir example_downloader @ [strftime_Ym (ord2ymd 739478)]) = None
   \<and> HttpGet (build_url (ord2ymd 739478))
         \<in> set (drop (length (events example_downloader))
                  (events (snd (download_range_body example_env example_downloader 739478))))"
proof -
  have 1: "ordinal_weekday 739478 < 5"
    by (simp add: ordinal_weekday_def)
  have 2: "\<not> in_existing_dir example_downloader (ord2ymd 739478)"
    by (simp add: in_existing_dir_def example_downloader_def NSEBhavcopyDownloader_init_def
        path_exists_def)
  have 3: "\<not> path_exists (dl_files example_downloader)
         (output_dir example_downloader @ [strftime_Ym (ord2ymd 739478), expected_csv_name (ord2ymd 739478)])"
    by (simp add: example_downloader_def NSEBhavcopyDownloader_init_def path_exists_def)
  have 4: "dl_mkdir_error example_env (output_dir example_downloader @ [strftime_Ym (ord2ymd 739478)]) = None"
    by (simp add: example_env_def)
  from fetch_whatever_the_calendar [of example_env example_downloader 739478] obtain es where
    es: "events (snd (download_range_body example_env example_downloader 739478))
           = events example_downloader @ es"
      "HttpGet (build_url (ord2ymd 739478)) \<in> set es"
    using 1 2 3 4 by blast
  show ?thesis
    using 1 2 3 4 es by simp
qed

text \<open>
  Claim C2, at the failing input.  The server answers the request for Friday
  15 August 2025 with a zip archive whose only member is \<open>bhavcopy_full.csv\<close>.
  \<open>download_and_extract\<close> returns true, the date is in neither list, and the \<open>stat\<close> of
  the expected CSV file raises \<open>FileNotFoundError\<close> out of the loop and out of
  \<open>download_range\<close>: the ledger has no row for the date and is never written, although the
  archive was fetched and extracted.
\<close>

theorem stat_raises_out_of_loop:
  "fst (download_range misnamed_env example_downloader 739478 739478) =
     Some (FileNotFoundError, ''No such file or directory: data/202508/sec_bhavdata_full_15082025.csv'')
   \<and> statuses (snd (download_range misnamed_env example_downloader 739478 739478)) = []
   \<and> dl_files (snd (download_range misnamed_env example_downloader 739478 739478))
       [''data'', ''202508'', ''bhavcopy_full.csv''] = Some ''SYMBOL,CLOSE''
   \<and> dl_files (snd (download_range misnamed_env example_downloader 739478 739478))
       example_ledger_path = None"
  by code_simp

section \<open>Writing the ledgers\<close>

text \<open>
  The downloader's \<open>write_csv\<close> on a path that already holds a ledger: the call succeeds
  and the file now holds the header of the new, empty ledger.
\<close>

theorem write_csv_overwrites_counterexample:
  "path_exists (dl_files second_downloader) example_ledger_path
   \<and> dl_files second_downloader example_ledger_path = Some ''ledger of the first run''
   \<and> \<not> isl (write_csv example_env 0 second_downloader)
   \<and> dl_files (projr (write_csv example_env 0 second_downloader)) example_ledger_path =
       Some (''date,status,reason,file_path,file_size,file_shape'' @ [CHR 0x0D, CHR 0x0A])"
  by code_simp

text \<open>
  Claim C3, as amended.  \<open>save_to_csv\<close> of the conversion script, on a ledger path that
  already exists, writes nothing, logs one warning and returns: the files are as before
  and the run goes on.  \<open>write_csv\<close> of the downloader has no such test: whenever the file
  can be opened it is written, whatever was at the path.
\<close>

theorem ledger_collision:
  "(path_exists (files st) (status_csv_path stamp) \<longrightarrow>
      save_to_csv cenv stamp st =
        Inr (st\<lparr>logged := logged st @
               [(LOG_WARNING, ''Status report file already exists: %s'',
                 [path_str (status_csv_path stamp)])]\<rparr>))
   \<and> (dl_open_error denv (BASE_LOG_DIR @ [''download_status-'' @ now_stamp denv k @ ''.csv'']) = None \<longrightarrow>
      write_csv denv k self =
        Inr (self\<lparr>dl_files := (dl_files self)
               (BASE_LOG_DIR @ [''download_status-'' @ now_stamp denv k @ ''.csv'']
                  \<mapsto> download_status_text denv (statuses self))\<rparr>))"
  by (simp add: save_to_csv_def write_csv_def log_to_def Let_def)

theorem ledger_collision_witness:
  "path_exists (files second_conv_state) (status_csv_path ''20250815_180000'')
   \<and> files (projr (save_to_csv example_conv_env ''20250815_180000'' second_conv_state))
        (status_csv_path ''20250815_180000'') = Some ''ledger of the first call''
   \<and> logged (projr (save_to_csv example_conv_env ''20250815_180000'' second_conv_state)) =
        [(LOG_WARNING, ''Status report file already exists: %s'',
          [''logs/file_processing_status-20250815_180000.csv''])]
   \<and> dl_open_error example_env (BASE_LOG_DIR @ [''download_status-'' @ now_stamp example_env 0 @ ''.csv'']) = None
   \<and> dl_files (projr (write_csv example_env 0 second_downloader)) example_ledger_path =
        Some (download_status_text example_env [])"
proof -
  have 1: "path_exists (files second_conv_state) (status_csv_path ''20250815_180000'')"
    by (simp add: second_conv_state_def example_conv_state_def path_exists_def)
  have 2: "dl_open_error example_env (BASE_LOG_DIR @ [''download_status-'' @ now_stamp example_env 0 @ ''.csv'']) = None"
    by (simp add: example_env_def)
  have 3: "files second_conv_state (status_csv_path ''20250815_180000'') = Some ''ledger of the first call''"
    by (simp add: second_conv_state_def example_conv_state_def)
  have 4: "logged second_conv_state = []"
    by (simp add: second_conv_state_def example_conv_state_def)
  have 5: "path_str (status_csv_path ''20250815_180000'') = ''logs/file_processing_status-20250815_180000.csv''"
    by code_simp
  have 6: "BASE_LOG_DIR @ [''download_status-'' @ now_stamp example_env 0 @ ''.csv''] = example_ledger_path"
    by code_simp
  have 7: "statuses second_downloader = []"
    by (simp add: second_downloader_def NSEBhavcopyDownloader_init_def)
  show ?thesis
    using ledger_collision [of second_conv_state "''20250815_180000''" example_conv_env
        example_env 0 second_downloader] 1 2 3 4 5 6 7
    by simp
qed

section \<open>Properties of the Conversion Pipeline\<close>

lemma relative_to_append [simp]: "relative_to (root @ rel) root = Inr rel"
  by (simp add: relative_to_def)

lemma stat_size_Some [simp]: "fs p = Some bytes \<Longrightarrow> stat_size fs p = Inr (int (length bytes))"
  by (simp add: stat_size_def)

lemma partition_dir_relative [simp]:
  "relative_to (partition_dir output_root kind d @ rest) output_root =
     Inr ([kind, ''cm'', ''year='' @ str_int (year d), ''month='' @ two_digits (month d)] @ rest)"
  by (simp add: partition_dir_def relative_to_def)

lemma convert_one_failure:
  assumes "parse_write_failure env (files st) input out = Some (e, left)"
  shows "convert_one env st input out copied =
           Inl (e, case left of None \<Rightarrow> st | Some part \<Rightarrow> st\<lparr>files := (files st)(out \<mapsto> part)\<rparr>)"
  using assms
  by (auto simp: parse_write_failure_def convert_one_def
      split: option.splits sum.splits write_result.splits)

text \<open>
  The name of a curated file is \<open>day=DD.parquet\<close>, whose stem carries no date: an input
  file, whose name does, is never the curated file of its date.
\<close>

lemma parquet_path_undated: "get_file_datetime_from_name (parquet_path output_root d) = None"
  by (simp add: get_file_datetime_from_name_def parquet_path_def path_stem_def path_name_def
      rfind_dot_def two_digits_def strptime_dmY_def rx_d_def rx_or_def rx_then_def rx_class_def
      rx_nonzero_def rx_digit_def Let_def)

text \<open>
  Claim C9, as amended.  Take a unit that reaches the conversion: the date of its name has
  parsed, its two folders could be made, its raw copy is in place, and force is set or no
  curated file is there yet; and let its input file be on disk.  When reading the CSV file
  or writing the Parquet file raises, the exception is caught, its message goes to the log,
  and one row with status \<open>Error\<close> is appended; the row has no field for the message, and
  its output name, path and size are empty and zero.  Nothing is cleaned up: the curated
  destination holds what the failed write left there, and is as before only when the writer
  left nothing.  (The tracker of a run holds the two roots of the run.)
\<close>

theorem failed_conversion_is_recorded:
  assumes "get_file_datetime_from_name (raw_root @ rel) = Some d"
    and "mkdir_error env (partition_dir output_root ''raw'' d) = None"
    and "mkdir_error env (partition_dir output_root ''curated'' d) = None"
    and "copy_input env force st (raw_root @ rel)
           (partition_dir output_root ''raw'' d @ [path_name (raw_root @ rel)]) = Inr st1"
    and "force \<or> \<not> path_exists (files st1) (parquet_path output_root d)"
    and "parse_write_failure env (files st1) (raw_root @ rel) (parquet_path output_root d) = Some (e, left)"
    and "files st1 (raw_root @ rel) = Some bytes"
    and "input_root_path (tracker st1) = raw_root"
    and "output_root_path (tracker st1) = output_root"
  shows "process_file env force raw_root output_root st rel =
           Inr (st1\<lparr>files := (case left of
                                  None \<Rightarrow> files st1
                                | Some part \<Rightarrow> (files st1)(parquet_path output_root d \<mapsto> part)),
                    logged := logged st1 @
                      [(LOG_ERROR, ''[ERROR] Failed to process %s: %s'', [path_str rel, snd e])],
                    tracker := (tracker st1)
                      \<lparr>records := records (tracker st1) @
                         [\<lparr>FILE_NAME = path_name (raw_root @ rel),
                           PROCESSING_STATUS = ''Error'',
                           OUTPUT_FILE_NAME = [],
                           FILE_DATE = strftime_Ymd_dash d,
                           WEEKDAY = strftime_A d,
                           INPUT_FILE_SIZE = int (length bytes),
                           OUTPUT_FILE_SIZE = 0,
                           INPUT_FILE_SHAPE = None,
                           INPUT_FILE_PATH = path_str rel,
                           OUTPUT_FILE_PATH = [],
                           COPIED_INPUT_FILE_PATH =
                             path_str [''raw'', ''cm'', ''year='' @ str_int (year d),
                                       ''month='' @ two_digits (month d), path_name (raw_root @ rel)]\<rparr>],
                       stats := (case stats (tracker st1) ERROR of
                                   Some n \<Rightarrow> (stats (tracker st1))(ERROR \<mapsto> n + 1)
                                 | None \<Rightarrow> stats (tracker st1))\<rparr>\<rparr>)"
proof -
  let ?input = "raw_root @ rel" and ?out = "parquet_path output_root d"
  let ?copied = "partition_dir output_root ''raw'' d @ [path_name ?input]"
  let ?st2 = "case left of None \<Rightarrow> st1 | Some part \<Rightarrow> st1\<lparr>files := (files st1)(?out \<mapsto> part)\<rparr>"
  have c: "convert_one env st1 ?input ?out ?copied = Inl (e, ?st2)"
    using assms(6) by (rule convert_one_failure)
  have ne: "?input \<noteq> ?out"
    using assms(1) parquet_path_undated [of output_root d] by auto
  have f2: "files ?st2 ?input = Some bytes"
    using assms(7) ne by (cases left) simp_all
  have p: "process_file env force raw_root output_root st rel =
             add_record (log_to ?st2 LOG_ERROR ''[ERROR] Failed to process %s: %s'' [path_str rel, snd e])
               ?input ERROR None None (Some ?copied)"
    using assms(1-5) c by (auto simp: process_file_def Let_def)
  show ?thesis
    unfolding p using assms(1,7,8,9) f2
    by (cases left) (simp_all add: add_record_def log_to_def Let_def Status_value_def
        split: option.splits)
qed

lemma example_date:
  "get_file_datetime_from_name ([''raw''] @ example_input) = Some \<lparr>year = 2019, month = 8, day = 23\<rparr>"
  by code_simp

lemma example_copied_path:
  "partition_dir [''out''] ''raw'' \<lparr>year = 2019, month = 8, day = 23\<rparr>
     @ [path_name ([''raw''] @ example_input)]
   = [''out'', ''raw'', ''cm'', ''year=2019'', ''month=08'', ''sec_bhavdata_full_23082019.csv'']"
  by code_simp

lemma example_parquet_path:
  "parquet_path [''out''] \<lparr>year = 2019, month = 8, day = 23\<rparr>
   = [''out'', ''curated'', ''cm'', ''year=2019'', ''month=08'', ''day=23.parquet'']"
  by code_simp

theorem failed_conversion_is_recorded_witness:
  "parse_write_failure failing_write_env (files copied_conv_state) ([''raw''] @ example_input)
       (parquet_path [''out''] \<lparr>year = 2019, month = 8, day = 23\<rparr>)
     = Some ((OtherException, ''No space left on device''), Some ''PAR1-da'')
   \<and> \<not> path_exists (files copied_conv_state) (parquet_path [''out''] \<lparr>year = 2019, month = 8, day = 23\<rparr>)
   \<and> files (projr (process_file failing_write_env False [''raw''] [''out''] example_conv_state example_input))
         (parquet_path [''out''] \<lparr>year = 2019, month = 8, day = 23\<rparr>) = Some ''PAR1-da''
   \<and> logged (projr (process_file failing_write_env False [''raw''] [''out''] example_conv_state example_input))
       = [(LOG_ERROR, ''[ERROR] Failed to process %s: %s'',
           [path_str example_input, ''No space left on device''])]"
proof -
  let ?d = "\<lparr>year = 2019, month = 8, day = 23\<rparr>"
  have 2: "mkdir_error failing_write_env (partition_dir [''out''] ''raw'' ?d) = None"
    and 3: "mkdir_error failing_write_env (partition_dir [''out''] ''curated'' ?d) = None"
    by (simp_all add: failing_write_env_def example_conv_env_def)
  have 4: "copy_input failing_write_env False example_conv_state ([''raw''] @ example_input)
             (partition_dir [''out''] ''raw'' ?d @ [path_name ([''raw''] @ example_input)])
           = Inr copied_conv_state"
    unfolding example_copied_path
    by (simp add: copy_input_def copy2_def path_exists_def example_conv_state_def
        example_raw_files_def example_input_def failing_write_env_def example_conv_env_def
        copied_conv_state_def)
  have 5: "False \<or> \<not> path_exists (files copied_conv_state) (parquet_path [''out''] ?d)"
    unfolding example_parquet_path
    by (simp add: path_exists_def copied_conv_state_def example_conv_state_def example_raw_files_def)
  have 7: "files copied_conv_state ([''raw''] @ example_input) = Some ''SYMBOL,CLOSE''"
    by (simp add: copied_conv_state_def example_conv_state_def example_raw_files_def example_input_def)
  have 6: "parse_write_failure failing_write_env (files copied_conv_state) ([''raw''] @ example_input)
             (parquet_path [''out''] ?d)
           = Some ((OtherException, ''No space left on device''), Some ''PAR1-da'')"
    using 7 by (simp add: parse_write_failure_def failing_write_env_def example_conv_env_def)
  have 9: "input_root_path (tracker copied_conv_state) = [''raw'']"
    and 10: "output_root_path (tracker copied_conv_state) = [''out'']"
    by (simp_all add: copied_conv_state_def example_conv_state_def ProcessingTracker_init_def)
  have l: "logged copied_conv_state = []"
    by (simp add: copied_conv_state_def example_conv_state_def)
  show ?thesis
    using failed_conversion_is_recorded [OF example_date 2 3 4 5 6 7 9 10] 5 6 l
    by simp
qed

text \<open>
  The writer fails after the first bytes: the truncated file stays at the curated
  destination, and the row of the ledger says \<open>Error\<close> and nothing about the cause.
\<close>

theorem partial_file_stays_counterexample:
  "files (projr (process_file failing_write_env False [''raw''] [''out''] example_conv_state example_input))
       [''out'', ''curated'', ''cm'', ''year=2019'', ''month=08'', ''day=23.parquet''] = Some ''PAR1-da''
   \<and> map row_fields
         (records (tracker (projr (process_file failing_write_env False [''raw''] [''out'']
                                     example_conv_state example_input))))
     = [[''sec_bhavdata_full_23082019.csv'', ''Error'', [], ''2019-08-23'', ''Friday'', ''12'', ''0'',
         ''0'', ''201908/sec_bhavdata_full_23082019.csv'', [],
         ''raw/cm/year=2019/month=08/sec_bhavdata_full_23082019.csv'']]"
  by code_simp

subsection \<open>Running the conversion twice\<close>

lemma add_record_row:
  assumes "add_record st i s out sh c = Inr st'"
  shows "\<exists>row. PROCESSING_STATUS row = Status_value s \<and> FILE_NAME row = path_name i
           \<and> records (tracker st') = records (tracker st) @ [row]
           \<and> files st' = files st
           \<and> input_root_path (tracker st') = input_root_path (tracker st)
           \<and> output_root_path (tracker st') = output_root_path (tracker st)
           \<and> path_exists (files st) i"
  using assms
  by (auto simp: add_record_def Let_def log_to_def stat_size_def path_exists_def
      split: sum.splits option.splits)

lemma copy_input_Inr:
  assumes "copy_input env False st i c = Inr st'"
  shows "files st \<subseteq>\<^sub>m files st' \<and> tracker st' = tracker st \<and> path_exists (files st') c"
  using assms
  by (auto simp: copy_input_def copy2_def path_exists_def map_le_def
      split: if_splits option.splits)

lemma convert_one_Inr:
  assumes "convert_one env st i out c = Inr st'" and "\<not> path_exists (files st) out"
  shows "files st \<subseteq>\<^sub>m files st' \<and> path_exists (files st') out \<and> path_exists (files st') i
       \<and> input_root_path (tracker st') = input_root_path (tracker st)
       \<and> output_root_path (tracker st') = output_root_path (tracker st)
       \<and> (\<exists>row. records (tracker st') = records (tracker st) @ [row]
              \<and> PROCESSING_STATUS row = Status_value SUCCESS \<and> FILE_NAME row = path_name i)"
proof -
  from assms(1) obtain bytes df where
    w: "to_parquet env df out = Written bytes"
    and a: "add_record (st\<lparr>files := (files st)(out \<mapsto> bytes)\<rparr>) i SUCCESS (Some out) (Some (df_shape df)) (Some c) = Inr st'"
    by (auto simp: convert_one_def Let_def split: option.splits sum.splits write_result.splits)
  from add_record_row [OF a] obtain row where
    r: "PROCESSING_STATUS row = Status_value SUCCESS" "FILE_NAME row = path_name i"
      "records (tracker st') = records (tracker st) @ [row]"
      "files st' = (files st)(out \<mapsto> bytes)"
      "input_root_path (tracker st') = input_root_path (tracker st)"
      "output_root_path (tracker st') = output_root_path (tracker st)"
      "path_exists ((files st)(out \<mapsto> bytes)) i"
    by auto
  have "files st \<subseteq>\<^sub>m files st'"
    using assms(2) r(4) by (auto simp: map_le_def path_exists_def)
  then show ?thesis
    using r by (auto simp: path_exists_def)
qed

lemma convert_one_Inl:
  assumes "convert_one env st i out c = Inl (e, st')" and "\<not> path_exists (files st) out"
  shows "files st \<subseteq>\<^sub>m files st' \<and> tracker st' = tracker st"
  using assms
  by (auto simp: convert_one_def Let_def map_le_def path_exists_def
      split: option.splits sum.splits write_result.splits)

lemma files_log_to [simp]: "files (log_to st lv fmt args) = files st"
  and tracker_log_to [simp]: "tracker (log_to st lv fmt args) = tracker st"
  by (simp_all add: log_to_def)

lemma map_le_exists: "fs \<subseteq>\<^sub>m fs' \<Longrightarrow> path_exists fs p \<Longrightarrow> path_exists fs' p"
  by (auto simp: map_le_def path_exists_def dom_def)

lemma converted_mono: "converted env rr orr fs rel \<Longrightarrow> fs \<subseteq>\<^sub>m fs' \<Longrightarrow> converted env rr orr fs' rel"
  by (auto simp: converted_def map_le_exists split: option.splits)

lemma process_file_Inr:
  assumes p: "process_file env False rr orr st rel = Inr st'"
    and roots: "input_root_path (tracker st) = rr" "output_root_path (tracker st) = orr"
  shows "files st \<subseteq>\<^sub>m files st'
       \<and> input_root_path (tracker st') = rr \<and> output_root_path (tracker st') = orr
       \<and> (\<exists>row. records (tracker st') = records (tracker st) @ [row]
              \<and> FILE_NAME row = path_name (rr @ rel)
              \<and> (PROCESSING_STATUS row \<noteq> Status_value ERROR \<longrightarrow> converted env rr orr (files st') rel))"
proof (cases "get_file_datetime_from_name (rr @ rel)")
  case None
  with p have "add_record
        (log_to (log_to st LOG_ERROR ''Cannot parse date from filename: %s'' [path_str (rr @ rel)])
           LOG_ERROR ''[ERROR] Cannot parse date from filename: %s'' [path_str rel])
        (rr @ rel) ERROR None None None = Inr st'"
    by (simp add: process_file_def Let_def)
  from add_record_row [OF this] show ?thesis
    using roots by auto
next
  case (Some d)
  let ?input = "rr @ rel"
  let ?copied = "partition_dir orr ''raw'' d @ [path_name ?input]"
  let ?out = "parquet_path orr d"
  have mk1: "mkdir_error env (partition_dir orr ''raw'' d) = None"
    using p Some by (cases "mkdir_error env (partition_dir orr ''raw'' d)")
      (simp_all add: process_file_def Let_def)
  show ?thesis
  proof (cases "copy_input env False st ?input ?copied")
    case (Inl e)
    with p Some mk1 have "add_record
        (log_to st LOG_ERROR ''[ERROR] Failed to copy input file %s to %s: %s''
           [path_str rel, path_str (drop (length orr) ?copied), snd e])
        ?input ERROR None None None = Inr st'"
      by (simp add: process_file_def Let_def)
    from add_record_row [OF this] show ?thesis
      using roots by auto
  next
    case (Inr s1)
    from copy_input_Inr [OF Inr] have c: "files st \<subseteq>\<^sub>m files s1" "tracker s1 = tracker st"
      "path_exists (files s1) ?copied"
      by auto
    have mk2: "mkdir_error env (partition_dir orr ''curated'' d) = None"
      using p Some mk1 Inr by (cases "mkdir_error env (partition_dir orr ''curated'' d)")
        (simp_all add: process_file_def Let_def)
    show ?thesis
    proof (cases "path_exists (files s1) ?out")
      case True
      with p Some mk1 mk2 Inr have
        "add_record s1 ?input SKIPPED (Some ?out) None (Some ?copied) = Inr st'"
        by (simp add: process_file_def Let_def)
      from add_record_row [OF this] obtain row where
        r: "PROCESSING_STATUS row = Status_value SKIPPED" "FILE_NAME row = path_name ?input"
          "records (tracker st') = records (tracker s1) @ [row]" "files st' = files s1"
          "input_root_path (tracker st') = input_root_path (tracker s1)"
          "output_root_path (tracker st') = output_root_path (tracker s1)"
          "path_exists (files s1) ?input"
        by auto
      have "converted env rr orr (files st') rel"
        using Some mk1 mk2 c(3) True r(4,7) by (simp add: converted_def)
      then show ?thesis
        using r c roots by auto
    next
      case False
      show ?thesis
      proof (cases "convert_one env s1 ?input ?out ?copied")
        case (Inr s2)
        with p Some mk1 mk2 \<open>copy_input env False st ?input ?copied = Inr s1\<close> False
        have st': "st' = s2"
          by (simp add: process_file_def Let_def)
        from convert_one_Inr [OF Inr False] obtain row where
          r: "files s1 \<subseteq>\<^sub>m files s2" "path_exists (files s2) ?out" "path_exists (files s2) ?input"
            "input_root_path (tracker s2) = input_root_path (tracker s1)"
            "output_root_path (tracker s2) = output_root_path (tracker s1)"
            "records (tracker s2) = records (tracker s1) @ [row]"
            "PROCESSING_STATUS row = Status_value SUCCESS" "FILE_NAME row = path_name ?input"
          by auto
        have "converted env rr orr (files s2) rel"
          using Some mk1 mk2 r(1,2,3) c(3) by (simp add: converted_def map_le_exists)
        moreover have "files st \<subseteq>\<^sub>m files s2"
          using c(1) r(1) by (rule map_le_trans)
        ultimately show ?thesis
          using st' r c roots by auto
      next
        case (Inl es)
        obtain e s2 where es: "es = (e, s2)" by (cases es)
        from convert_one_Inl [OF Inl [unfolded es] False]
        have s2: "files s1 \<subseteq>\<^sub>m files s2" "tracker s2 = tracker s1" by auto
        from p Some mk1 mk2 \<open>copy_input env False st ?input ?copied = Inr s1\<close> False Inl es
        have "add_record
            (log_to s2 LOG_ERROR ''[ERROR] Failed to process %s: %s'' [path_str rel, snd e])
            ?input ERROR None None (Some ?copied) = Inr st'"
          by (simp add: process_file_def Let_def)
        from add_record_row [OF this] obtain row where
          r: "PROCESSING_STATUS row = Status_value ERROR" "FILE_NAME row = path_name ?input"
            "records (tracker st') = records (tracker s2) @ [row]" "files st' = files s2"
            "input_root_path (tracker st') = input_root_path (tracker s2)"
            "output_root_path (tracker st') = output_root_path (tracker s2)"
          by auto
        have "files st \<subseteq>\<^sub>m files st'"
          using c(1) s2(1) r(4) by (metis map_le_trans)
        then show ?thesis
          using r s2 c roots by auto
      qed
    qed
  qed
qed

lemma process_file_converted:
  assumes "converted env rr orr (files g) rel"
    and "input_root_path (tracker g) = rr" "output_root_path (tracker g) = orr"
  shows "\<exists>g' row. process_file env False rr orr g rel = Inr g' \<and> files g' = files g
           \<and> records (tracker g') = records (tracker g) @ [row]
           \<and> PROCESSING_STATUS row = Status_value SKIPPED
           \<and> FILE_NAME row = path_name (rr @ rel)
           \<and> input_root_path (tracker g') = rr \<and> output_root_path (tracker g') = orr"
proof -
  from assms(1) obtain d where d: "get_file_datetime_from_name (rr @ rel) = Some d"
    and mk: "mkdir_error env (partition_dir orr ''raw'' d) = None"
      "mkdir_error env (partition_dir orr ''curated'' d) = None"
    and ex: "path_exists (files g) (partition_dir orr ''raw'' d @ [path_name (rr @ rel)])"
      "path_exists (files g) (parquet_path orr d)" "path_exists (files g) (rr @ rel)"
    by (auto simp: converted_def split: option.splits)
  have p: "process_file env False rr orr g rel =
      add_record g (rr @ rel) SKIPPED (Some (parquet_path orr d)) None
        (Some (partition_dir orr ''raw'' d @ [path_name (rr @ rel)]))"
    using d mk ex by (simp add: process_file_def Let_def copy_input_def)
  obtain b1 b2 where b: "files g (rr @ rel) = Some b1" "files g (parquet_path orr d) = Some b2"
    using ex by (auto simp: path_exists_def)
  have rel1: "relative_to (parquet_path orr d) orr = Inr (drop (length orr) (parquet_path orr d))"
    by (simp add: relative_to_def parquet_path_def partition_dir_def)
  have rel2: "relative_to (partition_dir orr ''raw'' d @ [path_name (rr @ rel)]) orr
                = Inr (drop (length orr) (partition_dir orr ''raw'' d @ [path_name (rr @ rel)]))"
    by (simp add: relative_to_def partition_dir_def)
  have rel3: "relative_to (rr @ rel) rr = Inr rel"
    by (simp add: relative_to_def)
  show ?thesis
    unfolding p using b ex d assms(2,3) rel1 rel2 rel3
    by (simp add: add_record_def stat_size_def Let_def split: option.splits)
qed

lemma process_file_input_exists:
  assumes "process_file env False rr orr st rel = Inr st'"
    and "input_root_path (tracker st) = rr" "output_root_path (tracker st) = orr"
  shows "path_exists (files st') (rr @ rel)"
proof -
  have a: "path_exists (files s') (rr @ rel)"
    if "add_record s (rr @ rel) x out sh c = Inr s'" for s s' x out sh c
    using add_record_row [OF that] by auto
  show ?thesis
  proof (cases "get_file_datetime_from_name (rr @ rel)")
    case None
    with assms(1) show ?thesis
      by (auto simp: process_file_def Let_def intro: a)
  next
    case (Some d)
    show ?thesis
      using assms(1) Some
      by (auto simp: process_file_def Let_def intro: a dest: convert_one_Inr
          split: option.splits sum.splits if_splits prod.splits)
  qed
qed

lemma add_record_total:
  assumes "path_exists (files st) (rr @ rel)"
    and "input_root_path (tracker st) = rr" "output_root_path (tracker st) = orr"
    and "out = None \<or> out = Some (parquet_path orr d)"
    and "c = None \<or> c = Some (partition_dir orr ''raw'' d' @ [nm])"
  shows "\<exists>st'. add_record st (rr @ rel) s out sh c = Inr st'"
  using assms
  by (auto simp: add_record_def stat_size_def path_exists_def relative_to_def parquet_path_def
      partition_dir_def Let_def split: option.splits)

lemma process_file_total:
  assumes ex: "path_exists (files g) (rr @ rel)"
    and roots: "input_root_path (tracker g) = rr" "output_root_path (tracker g) = orr"
    and mk: "\<And>p. mkdir_error env p = None"
  shows "\<exists>g'. process_file env False rr orr g rel = Inr g'"
proof (cases "get_file_datetime_from_name (rr @ rel)")
  case None
  then show ?thesis
    using add_record_total [of "log_to (log_to g LOG_ERROR ''Cannot parse date from filename: %s'' [path_str (rr @ rel)])
           LOG_ERROR ''[ERROR] Cannot parse date from filename: %s'' [path_str rel]" rr rel orr None d None]
      ex roots
    by (simp add: process_file_def Let_def)
next
  case (Some d)
  let ?input = "rr @ rel"
  let ?copied = "partition_dir orr ''raw'' d @ [path_name ?input]"
  let ?out = "parquet_path orr d"
  show ?thesis
  proof (cases "copy_input env False g ?input ?copied")
    case (Inl e)
    then show ?thesis
      using add_record_total [of "log_to g LOG_ERROR ''[ERROR] Failed to copy input file %s to %s: %s''
           [path_str rel, path_str (drop (length orr) ?copied), snd e]" rr rel orr None d None]
        ex roots Some mk
      by (simp add: process_file_def Let_def)
  next
    case (Inr s1)
    from copy_input_Inr [OF Inr] have c: "files g \<subseteq>\<^sub>m files s1" "tracker s1 = tracker g"
      by auto
    have ex1: "path_exists (files s1) ?input"
      using c(1) ex by (rule map_le_exists)
    show ?thesis
    proof (cases "path_exists (files s1) ?out")
      case True
      then show ?thesis
        using add_record_total [of s1 rr rel orr "Some ?out" d "Some ?copied" d "path_name ?input"]
          ex1 roots c Some mk Inr
        by (simp add: process_file_def Let_def)
    next
      case False
      show ?thesis
      proof (cases "convert_one env s1 ?input ?out ?copied")
        case (Inr s2)
        then show ?thesis
          using Some mk \<open>copy_input env False g ?input ?copied = Inr s1\<close> False
          by (simp add: process_file_def Let_def)
      next
        case (Inl es)
        obtain e s2 where es: "es = (e, s2)" by (cases es)
        from convert_one_Inl [OF Inl [unfolded es] False]
        have s2: "files s1 \<subseteq>\<^sub>m files s2" "tracker s2 = tracker s1" by auto
        have ex2: "path_exists (files s2) ?input"
          using s2(1) ex1 by (rule map_le_exists)
        show ?thesis
          using add_record_total [of "log_to s2 LOG_ERROR ''[ERROR] Failed to process %s: %s'' [path_str rel, snd e]"
              rr rel orr None d "Some ?copied" d "path_name ?input"]
            ex2 roots c s2 Some mk \<open>copy_input env False g ?input ?copied = Inr s1\<close> False Inl es
          by (simp add: process_file_def Let_def)
      qed
    qed
  qed
qed

lemma process_files_mono:
  assumes "process_files env False rr orr st rels = Inr st1"
    and "input_root_path (tracker st) = rr" "output_root_path (tracker st) = orr"
  shows "files st \<subseteq>\<^sub>m files st1"
  using assms
proof (induction rels arbitrary: st)
  case Nil
  then show ?case by simp
next
  case (Cons rel rels)
  from Cons.prems(1) obtain sa where
    a: "process_file env False rr orr st rel = Inr sa"
    and b: "process_files env False rr orr sa rels = Inr st1"
    by (auto split: sum.splits)
  from process_file_Inr [OF a Cons.prems(2,3)]
  have m: "files st \<subseteq>\<^sub>m files sa" and r: "input_root_path (tracker sa) = rr"
    "output_root_path (tracker sa) = orr"
    by auto
  from Cons.IH [OF b r] m show ?case
    by (metis map_le_trans)
qed

lemma process_files_rerun:
  assumes "process_files env False rr orr st rels = Inr st1"
    and "files st1 \<subseteq>\<^sub>m files g"
    and "input_root_path (tracker st) = rr" "output_root_path (tracker st) = orr"
    and "input_root_path (tracker g) = rr" "output_root_path (tracker g) = orr"
    and mk: "\<And>p. mkdir_error env p = None"
  shows "\<exists>g1 rows1 rows2. process_files env False rr orr g rels = Inr g1
           \<and> files g \<subseteq>\<^sub>m files g1
           \<and> records (tracker st1) = records (tracker st) @ rows1
           \<and> records (tracker g1) = records (tracker g) @ rows2
           \<and> length rows1 = length rels
           \<and> list_all2 rerun_outcome rows1 rows2
           \<and> list_all2 (row_outcome env rr orr (files g1)) rels rows2"
  using assms(1-6)
proof (induction rels arbitrary: st g)
  case Nil
  then show ?case by simp
next
  case (Cons rel rels)
  from Cons.prems(1) obtain sa where
    a: "process_file env False rr orr st rel = Inr sa"
    and b: "process_files env False rr orr sa rels = Inr st1"
    by (auto split: sum.splits)
  from process_file_Inr [OF a Cons.prems(3,4)] obtain row1 where
    sa: "files st \<subseteq>\<^sub>m files sa" "input_root_path (tracker sa) = rr"
      "output_root_path (tracker sa) = orr"
      "records (tracker sa) = records (tracker st) @ [row1]"
      "FILE_NAME row1 = path_name (rr @ rel)"
      "PROCESSING_STATUS row1 \<noteq> Status_value ERROR \<longrightarrow> converted env rr orr (files sa) rel"
    by auto
  have sa1: "files sa \<subseteq>\<^sub>m files st1"
    using b sa(2,3) by (rule process_files_mono)
  have sag: "files sa \<subseteq>\<^sub>m files g"
    using sa1 Cons.prems(2) by (rule map_le_trans)
  have "path_exists (files sa) (rr @ rel)"
    using a Cons.prems(3,4) by (rule process_file_input_exists)
  then have "path_exists (files g) (rr @ rel)"
    using sag map_le_exists by blast
  from process_file_total [OF this Cons.prems(5,6) mk] obtain ga where
    ga: "process_file env False rr orr g rel = Inr ga"
    by blast
  from process_file_Inr [OF ga Cons.prems(5,6)] obtain row2 where
    g2: "files g \<subseteq>\<^sub>m files ga" "input_root_path (tracker ga) = rr"
      "output_root_path (tracker ga) = orr"
      "records (tracker ga) = records (tracker g) @ [row2]"
      "FILE_NAME row2 = path_name (rr @ rel)"
      "PROCESSING_STATUS row2 \<noteq> Status_value ERROR \<longrightarrow> converted env rr orr (files ga) rel"
    by auto
  have head: "rerun_outcome row1 row2"
  proof -
    have "PROCESSING_STATUS row2 = Status_value SKIPPED"
      if "PROCESSING_STATUS row1 \<noteq> Status_value ERROR"
    proof -
      from that sa(6) have "converted env rr orr (files sa) rel" by simp
      then have "converted env rr orr (files g) rel"
        using sag by (rule converted_mono)
      from process_file_converted [OF this Cons.prems(5,6)] ga g2(4) show ?thesis
        by auto
    qed
    then show ?thesis
      using sa(5) g2(5) by (simp add: rerun_outcome_def)
  qed
  have "files st1 \<subseteq>\<^sub>m files ga"
    using Cons.prems(2) g2(1) by (rule map_le_trans)
  from Cons.IH [OF b this sa(2,3) g2(2,3)] obtain g1 rows1 rows2 where
    ih: "process_files env False rr orr ga rels = Inr g1" "files ga \<subseteq>\<^sub>m files g1"
      "records (tracker st1) = records (tracker sa) @ rows1"
      "records (tracker g1) = records (tracker ga) @ rows2"
      "length rows1 = length rels" "list_all2 rerun_outcome rows1 rows2"
      "list_all2 (row_outcome env rr orr (files g1)) rels rows2"
    by blast
  have row: "row_outcome env rr orr (files g1) rel row2"
    using g2(5,6) ih(2) converted_mono [of env rr orr "files ga" rel "files g1"]
    by (auto simp: row_outcome_def)
  have "files g \<subseteq>\<^sub>m files g1"
    using g2(1) ih(2) by (rule map_le_trans)
  then show ?case
    using ga ih sa(4) g2(4) head row
    by (intro exI [of _ g1] exI [of _ "row1 # rows1"] exI [of _ "row2 # rows2"]) simp
qed

lemma row_outcome_mono:
  "row_outcome env rr orr fs rel r \<Longrightarrow> fs \<subseteq>\<^sub>m fs' \<Longrightarrow> row_outcome env rr orr fs' rel r"
  by (auto simp: row_outcome_def converted_mono)

lemma save_to_csv_Inr:
  assumes "save_to_csv env stamp st = Inr st'"
  shows "files st \<subseteq>\<^sub>m files st' \<and> tracker st' = tracker st"
  using assms
  by (auto simp: save_to_csv_def Let_def log_to_def map_le_def path_exists_def
      split: if_splits option.splits)

lemma save_to_csv_total:
  assumes "open_error env (status_csv_path stamp) = None"
  shows "\<exists>st'. save_to_csv env stamp st = Inr st'"
  using assms by (simp add: save_to_csv_def Let_def)

text \<open>
  Claim C7, as amended.  When a first run with force disabled has finished, a second run
  over the same input files, on the files the first run left, finishes too (given that the
  folders and the new ledger file can be made); every file that is there after the first
  run, curated output included, holds the same bytes after the second; both ledgers have
  one row per input file, in the same order; and a unit that the first run recorded as
  success or skipped is recorded as skipped by the second.  Not every unit is recorded as
  skipped: the second run records a unit with another outcome than error only if the name
  of its file carries a date and the curated file for that date is there after the run
  (with the raw copy and the input file), and as error otherwise.
\<close>

theorem second_run_skips_converted:
  assumes "build_daily_parquet env stamp1 raw_root output_root pattern False input_csv_files fs = Inr st1"
    and "\<forall>p. mkdir_error env p = None"
    and "open_error env (status_csv_path stamp2) = None"
  shows "\<exists>st2. build_daily_parquet env stamp2 raw_root output_root pattern False input_csv_files
                 (files st1) = Inr st2
           \<and> files st1 \<subseteq>\<^sub>m files st2
           \<and> length (records (tracker st1)) = length input_csv_files
           \<and> list_all2 rerun_outcome (records (tracker st1)) (records (tracker st2))
           \<and> list_all2 (row_outcome env raw_root output_root (files st2))
                 input_csv_files (records (tracker st2))"
proof (cases "input_csv_files = []")
  case True
  with assms(1) show ?thesis
    by (auto simp: build_daily_parquet_def Let_def log_to_def ProcessingTracker_init_def)
next
  case False
  let ?t0 = "ProcessingTracker_init raw_root output_root"
  let ?s0 = "\<lparr>files = fs, tracker = ?t0, logged = []\<rparr>"
  let ?g0 = "\<lparr>files = files st1, tracker = ?t0, logged = []\<rparr>"
  from assms(1) False obtain sa where
    a: "process_files env False raw_root output_root ?s0 input_csv_files = Inr sa"
    and b: "save_to_csv env stamp1 sa = Inr st1"
    by (auto simp: build_daily_parquet_def Let_def split: sum.splits)
  from save_to_csv_Inr [OF b] have s1: "files sa \<subseteq>\<^sub>m files st1" "tracker st1 = tracker sa"
    by auto
  have roots: "input_root_path ?t0 = raw_root" "output_root_path ?t0 = output_root"
    by (simp_all add: ProcessingTracker_init_def)
  have "\<exists>g1 rows1 rows2. process_files env False raw_root output_root ?g0 input_csv_files = Inr g1
           \<and> files ?g0 \<subseteq>\<^sub>m files g1
           \<and> records (tracker sa) = records (tracker ?s0) @ rows1
           \<and> records (tracker g1) = records (tracker ?g0) @ rows2
           \<and> length rows1 = length input_csv_files
           \<and> list_all2 rerun_outcome rows1 rows2
           \<and> list_all2 (row_outcome env raw_root output_root (files g1)) input_csv_files rows2"
    by (rule process_files_rerun [OF a]) (use s1 roots assms(2) in simp_all)
  then obtain g1 rows1 rows2 where
    g: "process_files env False raw_root output_root ?g0 input_csv_files = Inr g1"
      "files st1 \<subseteq>\<^sub>m files g1"
      "records (tracker sa) = rows1" "records (tracker g1) = rows2"
      "length rows1 = length input_csv_files" "list_all2 rerun_outcome rows1 rows2"
      "list_all2 (row_outcome env raw_root output_root (files g1)) input_csv_files rows2"
    by (auto simp: ProcessingTracker_init_def)
  from save_to_csv_total [OF assms(3)] obtain st2 where
    c: "save_to_csv env stamp2 g1 = Inr st2" by blast
  from save_to_csv_Inr [OF c] have s2: "files g1 \<subseteq>\<^sub>m files st2" "tracker st2 = tracker g1"
    by auto
  have "files st1 \<subseteq>\<^sub>m files st2"
    using g(2) s2(1) by (rule map_le_trans)
  moreover have "list_all2 (row_outcome env raw_root output_root (files st2)) input_csv_files rows2"
    using g(7) s2(1) by (auto elim!: list_all2_mono intro: row_outcome_mono)
  moreover have "build_daily_parquet env stamp2 raw_root output_root pattern False input_csv_files
                   (files st1) = Inr st2"
    using False g(1) c by (simp add: build_daily_parquet_def Let_def)
  ultimately show ?thesis
    using g s1 s2 by auto
qed

theorem second_run_skips_converted_witness:
  "\<not> isl first_run
   \<and> (\<forall>p. mkdir_error example_conv_env p = None)
   \<and> open_error example_conv_env (status_csv_path ''20250815_190000'') = None
   \<and> \<not> isl second_run
   \<and> files (projr first_run) \<subseteq>\<^sub>m files (projr second_run)
   \<and> list_all2 rerun_outcome (records (tracker (projr first_run))) (records (tracker (projr second_run)))
   \<and> list_all2 (row_outcome example_conv_env [''raw''] [''out''] (files (projr second_run)))
         [example_input, undated_input] (records (tracker (projr second_run)))"
proof -
  have n: "\<not> isl first_run"
    by code_simp
  then have 1: "build_daily_parquet example_conv_env ''20250815_180000'' [''raw''] [''out'']
       ''sec_bhavdata_full_*.csv'' False [example_input, undated_input] example_raw_files
       = Inr (projr first_run)"
    by (cases first_run) (simp_all add: first_run_def)
  have 2: "\<forall>p. mkdir_error example_conv_env p = None"
    by (simp add: example_conv_env_def)
  have 3: "open_error example_conv_env (status_csv_path ''20250815_190000'') = None"
    by (simp add: example_conv_env_def)
  from second_run_skips_converted [OF 1 2 3] show ?thesis
    using n 2 3 by (auto simp: second_run_def)
qed

text \<open>
  The file \<open>sec_bhavdata_full_latest.csv\<close> has no date in its name: both runs record it as
  an error, so the ledger of the second run is not all skipped.
\<close>

theorem second_run_not_all_skipped_counterexample:
  "\<not> isl first_run \<and> \<not> isl second_run
   \<and> map PROCESSING_STATUS (records (tracker (projr first_run))) = [''Success'', ''Error'']
   \<and> map PROCESSING_STATUS (records (tracker (projr second_run))) = [''Skipped'', ''Error'']"
  by code_simp

section \<open>The date in a file name\<close>

lemma divmod10: "0 \<le> (d::int) \<Longrightarrow> d \<le> 9 \<Longrightarrow> (10 * q + d) div 10 = q \<and> (10 * q + d) mod 10 = d"
  by auto

lemma div100: "(n::int) div 100 = n div 10 div 10"
  by (simp add: zdiv_zmult2_eq [symmetric])

lemma div1000: "(n::int) div 1000 = n div 10 div 10 div 10"
  by (simp add: zdiv_zmult2_eq [symmetric])

lemma small_mod10: "0 \<le> (n::int) \<Longrightarrow> n \<le> 9 \<Longrightarrow> n mod 10 = n"
  by simp

lemma div10_le: "(n::int) \<le> 10 * k + 9 \<Longrightarrow> n div 10 \<le> k"
proof -
  assume "n \<le> 10 * k + 9"
  then have "n div 10 \<le> (10 * k + 9) div 10" by (rule zdiv_mono1) simp
  also have "\<dots> = k" using divmod10 [of 9 k] by simp
  finally show ?thesis .
qed

lemma horner4:
  assumes "0 \<le> (n::int)" "n \<le> 9999"
  shows "10 * (10 * (10 * (n div 10 div 10 div 10 mod 10) + n div 10 div 10 mod 10) + n div 10 mod 10) + n mod 10 = n"
proof -
  have "n div 10 \<le> 999" using assms(2) div10_le [of n 999] by simp
  then have "n div 10 div 10 \<le> 99" using div10_le [of "n div 10" 99] by simp
  then have "n div 10 div 10 div 10 \<le> 9" using div10_le [of "n div 10 div 10" 9] by simp
  moreover have "0 \<le> n div 10 div 10 div 10" using assms(1) by simp
  ultimately have "n div 10 div 10 div 10 mod 10 = n div 10 div 10 div 10" by (rule_tac small_mod10)
  then show ?thesis by simp
qed

lemma digit_char_val: "is_digit c \<Longrightarrow> digit_char (digit_val c) = c"
  by (auto simp: is_digit_def digit_char_def digit_val_def)

lemma digit_val_range: "is_digit c \<Longrightarrow> 0 \<le> digit_val c \<and> digit_val c \<le> 9"
  by (auto simp: is_digit_def digit_val_def)

lemma below5_cases: "0 \<le> (x::int) \<Longrightarrow> x \<le> 4 \<Longrightarrow> x \<in> {0,1,2,3,4}"
  by auto

lemma from5_cases: "5 \<le> (x::int) \<Longrightarrow> x < 10 \<Longrightarrow> x \<in> {5,6,7,8,9}"
  by auto

lemma below10_cases: "0 \<le> (x::int) \<Longrightarrow> x < 10 \<Longrightarrow> x \<in> {0,1,2,3,4,5,6,7,8,9}"
proof (cases "x \<le> 4")
  case True
  assume "0 \<le> x"
  from below5_cases [OF this True] show ?thesis by blast
next
  case False
  assume "x < 10"
  with False from5_cases [of x] show ?thesis by force
qed

lemma mod10_cases: "(n::int) mod 10 \<in> {0,1,2,3,4,5,6,7,8,9}"
  by (rule below10_cases) simp_all

lemma digit_val_char: "digit_val (digit_char n) = n mod 10"
  using mod10_cases [of n] by (auto simp: digit_char_def digit_val_def)

lemma is_digit_char: "is_digit (digit_char n)"
  using mod10_cases [of n] by (auto simp: digit_char_def is_digit_def)

lemma digit_char_mod: "digit_char (n mod 10) = digit_char n"
  by (simp add: digit_char_def)

lemma digit_not_space: "is_digit c \<Longrightarrow> c \<noteq> CHR '' ''"
  by (auto simp: is_digit_def)

lemma nonzero_digit: "is_nonzero c \<Longrightarrow> is_digit c"
  by (auto simp: is_digit_def is_nonzero_def)

lemma py_int_2: "c1 \<noteq> CHR '' '' \<Longrightarrow> py_int [c1, c2] = 10 * digit_val c1 + digit_val c2"
  by (simp add: py_int_def)

lemma py_int_4: "c1 \<noteq> CHR '' '' \<Longrightarrow>
   py_int [c1, c2, c3, c4] = 10 * (10 * (10 * digit_val c1 + digit_val c2) + digit_val c3) + digit_val c4"
  by (simp add: py_int_def)

lemma py_int_sp: "c2 \<noteq> CHR '' '' \<Longrightarrow> py_int [CHR '' '', c2] = digit_val c2"
  by (simp add: py_int_def)

lemma two_digits_py_int:
  assumes "is_digit c1" "is_digit c2"
  shows "two_digits (py_int [c1, c2]) = [c1, c2]"
proof -
  let ?a = "digit_val c1" and ?b = "digit_val c2"
  have r: "0 \<le> ?a" "?a \<le> 9" "0 \<le> ?b" "?b \<le> 9"
    using assms digit_val_range by auto
  have p: "py_int [c1, c2] = 10 * ?a + ?b"
    using py_int_2 [of c1 c2] digit_not_space [OF assms(1)] by blast
  have d: "(10 * ?a + ?b) div 10 = ?a" "(10 * ?a + ?b) mod 10 = ?b"
    using divmod10 [OF r(3,4)] by simp_all
  have "two_digits (10 * ?a + ?b) = [digit_char ((10 * ?a + ?b) div 10), digit_char ((10 * ?a + ?b) mod 10)]"
    by (simp only: two_digits_def digit_char_mod)
  then show ?thesis
    using assms by (simp only: p d digit_char_val)
qed

lemma four_digits_py_int:
  assumes "is_digit c1" "is_digit c2" "is_digit c3" "is_digit c4"
  shows "four_digits (py_int [c1, c2, c3, c4]) = [c1, c2, c3, c4]"
proof -
  let ?a = "digit_val c1" and ?b = "digit_val c2" and ?c = "digit_val c3" and ?d = "digit_val c4"
  let ?n = "10 * (10 * (10 * ?a + ?b) + ?c) + ?d"
  have r: "0 \<le> ?a" "?a \<le> 9" "0 \<le> ?b" "?b \<le> 9" "0 \<le> ?c" "?c \<le> 9" "0 \<le> ?d" "?d \<le> 9"
    using assms digit_val_range by auto
  have p: "py_int [c1, c2, c3, c4] = ?n"
    using py_int_4 [of c1 c2 c3 c4] digit_not_space [OF assms(1)] by blast
  have 4: "?n mod 10 = ?d" and q1: "?n div 10 = 10 * (10 * ?a + ?b) + ?c"
    using divmod10 [OF r(7,8), of "10 * (10 * ?a + ?b) + ?c"] by simp_all
  have 3: "?n div 10 mod 10 = ?c" and q2: "?n div 10 div 10 = 10 * ?a + ?b"
    using divmod10 [OF r(5,6), of "10 * ?a + ?b"] by (simp_all only: q1)
  have 2: "?n div 10 div 10 mod 10 = ?b" and q3: "?n div 10 div 10 div 10 = ?a"
    using divmod10 [OF r(3,4), of ?a] by (simp_all only: q2)
  have 1: "?n div 10 div 10 div 10 mod 10 = ?a"
    using r(1,2) by (simp only: q3 small_mod10)
  have "four_digits ?n = [digit_char (?n div 10 div 10 div 10 mod 10), digit_char (?n div 10 div 10 mod 10),
          digit_char (?n div 10 mod 10), digit_char (?n mod 10)]"
    by (simp only: four_digits_def digit_char_mod div100 div1000)
  then show ?thesis
    using assms by (simp only: p 1 2 3 4 digit_char_val)
qed

lemma py_int_four_digits: "0 \<le> n \<Longrightarrow> n \<le> 9999 \<Longrightarrow> py_int (four_digits n) = n"
proof -
  assume a: "0 \<le> n" "n \<le> 9999"
  have ns: "digit_char (n div 1000) \<noteq> CHR '' ''"
    by (rule digit_not_space [OF is_digit_char])
  have "py_int (four_digits n) =
      10 * (10 * (10 * digit_val (digit_char (n div 1000)) + digit_val (digit_char (n div 100)))
            + digit_val (digit_char (n div 10))) + digit_val (digit_char n)"
    unfolding four_digits_def by (rule py_int_4 [OF ns])
  also have "\<dots> =
      10 * (10 * (10 * (n div 10 div 10 div 10 mod 10) + n div 10 div 10 mod 10) + n div 10 mod 10) + n mod 10"
    by (simp only: digit_val_char div100 div1000)
  also have "\<dots> = n" using a by (rule horner4)
  finally show ?thesis .
qed

lemma rx_class_iff: "(a, r) \<in> set (rx_class cs s) \<longleftrightarrow> (\<exists>c. c \<in> set cs \<and> a = [c] \<and> s = c # r)"
  by (cases s) (auto simp: rx_class_def)

lemma rx_then_iff: "(a, r) \<in> set (rx_then p q s) \<longleftrightarrow>
   (\<exists>a1 r1 a2. (a1, r1) \<in> set (p s) \<and> (a2, r) \<in> set (q r1) \<and> a = a1 @ a2)"
  by (force simp: rx_then_def)

lemma rx_or_iff: "(a, r) \<in> set (rx_or p q s) \<longleftrightarrow> (a, r) \<in> set (p s) \<or> (a, r) \<in> set (q s)"
  by (simp add: rx_or_def)

lemma rx_digit_iff: "(a, r) \<in> set (rx_digit s) \<longleftrightarrow> (\<exists>c. is_digit c \<and> a = [c] \<and> s = c # r)"
  unfolding rx_digit_def is_digit_def by (rule rx_class_iff)

lemma rx_nonzero_iff: "(a, r) \<in> set (rx_nonzero s) \<longleftrightarrow> (\<exists>c. is_nonzero c \<and> a = [c] \<and> s = c # r)"
  unfolding rx_nonzero_def is_nonzero_def by (rule rx_class_iff)

lemma rx_Y_elem:
  assumes "(y, r) \<in> set (rx_Y s)"
  shows "\<exists>c1 c2 c3 c4. y = [c1, c2, c3, c4] \<and> is_digit c1 \<and> is_digit c2 \<and> is_digit c3 \<and> is_digit c4
           \<and> s = y @ r"
  using assms by (auto simp: rx_Y_def rx_then_iff rx_digit_iff)

lemma rx_m_elem:
  assumes "(m, r) \<in> set (rx_m s)"
  shows "s = m @ r \<and> ((\<exists>c1 c2. m = [c1, c2] \<and> month_text2 c1 c2) \<or> (\<exists>c. m = [c] \<and> is_nonzero c))"
  using assms
  by (auto simp: rx_m_def rx_or_iff rx_then_iff rx_class_iff rx_nonzero_iff month_text2_def)

lemma rx_d_elem:
  assumes "(d, r) \<in> set (rx_d s)"
  shows "s = d @ r \<and> ((\<exists>c1 c2. d = [c1, c2] \<and> (day_text2 c1 c2 \<or> c1 = CHR '' '' \<and> is_nonzero c2))
                       \<or> (\<exists>c. d = [c] \<and> is_nonzero c))"
  using assms
  by (auto simp: rx_d_def rx_or_iff rx_then_iff rx_class_iff rx_nonzero_iff rx_digit_iff day_text2_def)

lemma month_text2_digits: "month_text2 c1 c2 \<Longrightarrow> is_digit c1 \<and> is_digit c2"
  by (auto simp: month_text2_def is_digit_def is_nonzero_def)

lemma day_text2_digits: "day_text2 c1 c2 \<Longrightarrow> is_digit c1 \<and> is_digit c2"
  by (auto simp: day_text2_def is_digit_def is_nonzero_def)

lemma make_date_Some: "make_date y m d = Some dt \<Longrightarrow> valid_date dt \<and> year dt = y \<and> month dt = m \<and> day dt = d"
  by (auto simp: make_date_def Let_def split: if_splits)

lemma blank_day:
  assumes "is_nonzero c"
  shows "py_int [CHR '' '', c] = digit_val c \<and> digit_val c < 10
       \<and> two_digits (digit_val c) = [CHR ''0'', c]"
  using assms
  by (auto simp: is_nonzero_def py_int_def digit_val_def two_digits_def digit_char_def)

lemma in_concat_map: "x \<in> set (concat (map f xs)) \<longleftrightarrow> (\<exists>a \<in> set xs. x \<in> set (f a))"
  by auto

lemma matches_elem:
  assumes "(d, m, y, rest) \<in> set (concat (map (\<lambda>(d, r1). concat (map (\<lambda>(m, r2).
       map (\<lambda>(y, r3). (d, m, y, r3)) (rx_Y r2)) (rx_m r1))) (rx_d s)))"
  shows "\<exists>r1 r2. (d, r1) \<in> set (rx_d s) \<and> (m, r2) \<in> set (rx_m r1) \<and> (y, rest) \<in> set (rx_Y r2)"
proof -
  from assms obtain a where a: "a \<in> set (rx_d s)"
    and 1: "(d, m, y, rest) \<in> set ((\<lambda>(d, r1). concat (map (\<lambda>(m, r2).
       map (\<lambda>(y, r3). (d, m, y, r3)) (rx_Y r2)) (rx_m r1))) a)"
    unfolding in_concat_map by blast
  obtain d' r1 where a': "a = (d', r1)" by (cases a)
  from 1 have "(d, m, y, rest) \<in> set (concat (map (\<lambda>(m, r2).
       map (\<lambda>(y, r3). (d', m, y, r3)) (rx_Y r2)) (rx_m r1)))"
    unfolding a' by simp
  then obtain b where b: "b \<in> set (rx_m r1)"
    and 2: "(d, m, y, rest) \<in> set ((\<lambda>(m, r2). map (\<lambda>(y, r3). (d', m, y, r3)) (rx_Y r2)) b)"
    unfolding in_concat_map by blast
  obtain m' r2 where b': "b = (m', r2)" by (cases b)
  from 2 have "(d, m, y, rest) \<in> (\<lambda>(y, r3). (d', m', y, r3)) ` set (rx_Y r2)"
    unfolding b' by simp
  then obtain c where c: "c \<in> set (rx_Y r2)" and 3: "(d, m, y, rest) = (\<lambda>(y, r3). (d', m', y, r3)) c"
    by blast
  obtain y' r3 where c': "c = (y', r3)" by (cases c)
  from 3 have "d = d'" "m = m'" "y = y'" "rest = r3"
    unfolding c' by simp_all
  with a b c a' b' c' show ?thesis by blast
qed

lemma strptime_dmY_Some:
  assumes "strptime_dmY s = Some dt"
  shows "\<exists>d m y r1 r2. (d, r1) \<in> set (rx_d s) \<and> (m, r2) \<in> set (rx_m r1) \<and> (y, []) \<in> set (rx_Y r2)
           \<and> make_date (py_int y) (py_int m) (py_int d) = Some dt"
proof -
  let ?L = "concat (map (\<lambda>(d, r1). concat (map (\<lambda>(m, r2).
       map (\<lambda>(y, r3). (d, m, y, r3)) (rx_Y r2)) (rx_m r1))) (rx_d s))"
  have def: "strptime_dmY s =
      (case ?L of [] \<Rightarrow> None
       | (d, m, y, rest) # _ \<Rightarrow> if rest \<noteq> [] then None else make_date (py_int y) (py_int m) (py_int d))"
    by (simp only: strptime_dmY_def)
  obtain x L' where L: "?L = x # L'"
    using assms unfolding def by (cases ?L) simp_all
  obtain d m y rest where x: "x = (d, m, y, rest)" by (cases x)
  have r: "rest = []" and md: "make_date (py_int y) (py_int m) (py_int d) = Some dt"
    using assms unfolding def L x by (simp_all split: if_splits)
  have "(d, m, y, []) \<in> set ?L" unfolding L x r by simp
  from matches_elem [OF this] md show ?thesis by blast
qed

lemma strptime_dmY_sound:
  assumes "strptime_dmY s = Some dt" and "length s = 8"
  shows "valid_date dt \<and> (s = ddmmyyyy dt \<or> (day dt < 10 \<and> s = CHR '' '' # tl (ddmmyyyy dt)))"
proof -
  from strptime_dmY_Some [OF assms(1)] obtain d m y r1 r2 where
    e: "(d, r1) \<in> set (rx_d s)" "(m, r2) \<in> set (rx_m r1)" "(y, []) \<in> set (rx_Y r2)"
    and md: "make_date (py_int y) (py_int m) (py_int d) = Some dt"
    by blast
  from rx_Y_elem [OF e(3)] obtain y1 y2 y3 y4 where
    y: "y = [y1, y2, y3, y4]" "is_digit y1" "is_digit y2" "is_digit y3" "is_digit y4" "r2 = y"
    by auto
  from rx_m_elem [OF e(2)] have m: "r1 = m @ r2"
    "(\<exists>c1 c2. m = [c1, c2] \<and> month_text2 c1 c2) \<or> (\<exists>c. m = [c] \<and> is_nonzero c)"
    by auto
  from rx_d_elem [OF e(1)] have d: "s = d @ r1"
    "(\<exists>c1 c2. d = [c1, c2] \<and> (day_text2 c1 c2 \<or> c1 = CHR '' '' \<and> is_nonzero c2))
       \<or> (\<exists>c. d = [c] \<and> is_nonzero c)"
    by auto
  have len: "length d + length m = 4"
    using assms(2) d(1) m(1) y(1,6) by simp
  have ld: "length d \<le> 2" "length m \<le> 2"
    using d(2) m(2) by auto
  with len have l2: "length d = 2" "length m = 2" by simp_all
  from m(2) l2(2) obtain b1 b2 where m2: "m = [b1, b2]" "month_text2 b1 b2"
    by auto
  from d(2) l2(1) obtain a1 a2 where d2: "d = [a1, a2]"
    "day_text2 a1 a2 \<or> a1 = CHR '' '' \<and> is_nonzero a2"
    by auto
  from make_date_Some [OF md] have v: "valid_date dt" "year dt = py_int y" "month dt = py_int m"
    "day dt = py_int d"
    by auto
  have "four_digits (year dt) = y"
    unfolding v(2) y(1) using y(2-5) by (rule four_digits_py_int)
  moreover have "two_digits (month dt) = m"
    unfolding v(3) m2(1) using month_text2_digits [OF m2(2)] by (simp add: two_digits_py_int)
  moreover have s: "s = d @ m @ y"
    using d(1) m(1) y(6) by simp
  moreover note ym = calculation
  from d2(2) show ?thesis
  proof
    assume "day_text2 a1 a2"
    from day_text2_digits [OF this] have "two_digits (day dt) = d"
      unfolding v(4) d2(1) by (simp add: two_digits_py_int)
    then show ?thesis
      using v(1) ym by (simp add: ddmmyyyy_def)
  next
    assume b: "a1 = CHR '' '' \<and> is_nonzero a2"
    with blank_day [of a2] d2(1) v(4) have "day dt < 10" "two_digits (day dt) = [CHR ''0'', a2]"
      by auto
    then show ?thesis
      using v(1) ym b d2(1) by (simp add: ddmmyyyy_def)
  qed
qed

lemma rx_one: "rx_class A (c1 # r) = (if c1 \<in> set A then [([c1], r)] else [])"
  by (simp add: rx_class_def)

lemma rx_two: "rx_then (rx_class A) (rx_class B) (c1 # c2 # r) =
    (if c1 \<in> set A \<and> c2 \<in> set B then [([c1, c2], r)] else [])"
  by (simp add: rx_then_def rx_class_def)

lemma rx_d_Cons2:
  "rx_d (c1 # c2 # r) =
     (if c1 \<in> set ''3'' \<and> c2 \<in> set ''01'' then [([c1, c2], r)] else []) @
     (if c1 \<in> set ''12'' \<and> c2 \<in> set ''0123456789'' then [([c1, c2], r)] else []) @
     (if c1 \<in> set ''0'' \<and> c2 \<in> set ''123456789'' then [([c1, c2], r)] else []) @
     (if c1 \<in> set ''123456789'' then [([c1], c2 # r)] else []) @
     (if c1 \<in> set '' '' \<and> c2 \<in> set ''123456789'' then [([c1, c2], r)] else [])"
  by (simp only: rx_d_def rx_or_def rx_digit_def rx_nonzero_def rx_two rx_one)

lemma rx_m_Cons2:
  "rx_m (c1 # c2 # r) =
     (if c1 \<in> set ''1'' \<and> c2 \<in> set ''012'' then [([c1, c2], r)] else []) @
     (if c1 \<in> set ''0'' \<and> c2 \<in> set ''123456789'' then [([c1, c2], r)] else []) @
     (if c1 \<in> set ''123456789'' then [([c1], c2 # r)] else [])"
  by (simp only: rx_m_def rx_or_def rx_nonzero_def rx_two rx_one)

lemma rx_d_head: "day_text2 c1 c2 \<Longrightarrow> \<exists>more. rx_d (c1 # c2 # r) = ([c1, c2], r) # more"
  unfolding rx_d_Cons2 day_text2_def is_digit_def is_nonzero_def
  by (elim disjE conjE) auto

lemma rx_d_blank: "is_nonzero c2 \<Longrightarrow> \<exists>more. rx_d (CHR '' '' # c2 # r) = ([CHR '' '', c2], r) # more"
  unfolding rx_d_Cons2 is_nonzero_def by simp

lemma rx_m_head: "month_text2 c1 c2 \<Longrightarrow> \<exists>more. rx_m (c1 # c2 # r) = ([c1, c2], r) # more"
  unfolding rx_m_Cons2 month_text2_def is_nonzero_def
  by (elim disjE conjE) auto

lemma rx_digit_Cons: "is_digit c \<Longrightarrow> rx_digit (c # r) = [([c], r)]"
  by (simp add: rx_digit_def rx_class_def is_digit_def)

lemma rx_Y_digits:
  "is_digit c1 \<Longrightarrow> is_digit c2 \<Longrightarrow> is_digit c3 \<Longrightarrow> is_digit c4 \<Longrightarrow>
   rx_Y (c1 # c2 # c3 # c4 # r) = [([c1, c2, c3, c4], r)]"
  by (simp add: rx_Y_def rx_then_def rx_digit_Cons)

lemma strptime_dmY_parse:
  assumes "day_text2 a1 a2 \<or> a1 = CHR '' '' \<and> is_nonzero a2" and "month_text2 b1 b2"
    and "is_digit y1" "is_digit y2" "is_digit y3" "is_digit y4"
  shows "strptime_dmY [a1, a2, b1, b2, y1, y2, y3, y4] =
           make_date (py_int [y1, y2, y3, y4]) (py_int [b1, b2]) (py_int [a1, a2])"
proof -
  from assms(1) rx_d_head rx_d_blank obtain more1 where
    1: "rx_d [a1, a2, b1, b2, y1, y2, y3, y4] = ([a1, a2], [b1, b2, y1, y2, y3, y4]) # more1"
    by blast
  from rx_m_head [OF assms(2)] obtain more2 where
    2: "rx_m [b1, b2, y1, y2, y3, y4] = ([b1, b2], [y1, y2, y3, y4]) # more2"
    by blast
  have 3: "rx_Y [y1, y2, y3, y4] = [([y1, y2, y3, y4], [])]"
    using assms(3-6) by (rule rx_Y_digits)
  show ?thesis
    by (simp add: strptime_dmY_def 1 2 3)
qed

lemma day_chars:
  assumes "1 \<le> n" "n \<le> 31"
  shows "day_text2 (digit_char (n div 10)) (digit_char n) \<and> py_int (two_digits n) = n"
proof -
  have "list_all (\<lambda>n. day_text2 (digit_char (n div 10)) (digit_char n) \<and> py_int (two_digits n) = n) [1..31]"
    by code_simp
  with assms show ?thesis by (simp add: list_all_iff)
qed

lemma month_chars:
  assumes "1 \<le> n" "n \<le> 12"
  shows "month_text2 (digit_char (n div 10)) (digit_char n) \<and> py_int (two_digits n) = n"
proof -
  have "list_all (\<lambda>n. month_text2 (digit_char (n div 10)) (digit_char n) \<and> py_int (two_digits n) = n) [1..12]"
    by code_simp
  with assms show ?thesis by (simp add: list_all_iff)
qed

lemma blank_chars:
  assumes "1 \<le> n" "n < 10"
  shows "is_nonzero (digit_char n) \<and> py_int [CHR '' '', digit_char n] = n"
proof -
  have "list_all (\<lambda>n. is_nonzero (digit_char n) \<and> py_int [CHR '' '', digit_char n] = n) [1..9]"
    by code_simp
  with assms show ?thesis by (simp add: list_all_iff)
qed

lemma days_in_month_le: "days_in_month y m \<le> 31"
  by (simp add: days_in_month_def)

lemma strptime_dmY_complete:
  assumes "valid_date dt"
  shows "strptime_dmY (ddmmyyyy dt) = Some dt"
    and "day dt < 10 \<Longrightarrow> strptime_dmY (CHR '' '' # tl (ddmmyyyy dt)) = Some dt"
proof -
  from assms have r: "1 \<le> year dt" "year dt \<le> 9999" "1 \<le> month dt" "month dt \<le> 12"
    "1 \<le> day dt" "day dt \<le> 31"
    using days_in_month_le [of "year dt" "month dt"] by (auto simp: valid_date_def)
  note d = day_chars [OF r(5,6)] and m = month_chars [OF r(3,4)]
  have y: "py_int (four_digits (year dt)) = year dt"
    using r(1,2) by (simp add: py_int_four_digits)
  have e: "\<lparr>year = year dt, month = month dt, day = day dt\<rparr> = dt"
    by (cases dt) simp
  have md: "make_date (year dt) (month dt) (day dt) = Some dt"
    using assms by (simp only: make_date_def Let_def e if_True)
  have "strptime_dmY (ddmmyyyy dt) =
      make_date (py_int (four_digits (year dt))) (py_int (two_digits (month dt))) (py_int (two_digits (day dt)))"
    unfolding ddmmyyyy_def two_digits_def four_digits_def append.simps
    by (rule strptime_dmY_parse) (use d m is_digit_char in simp_all)
  then show "strptime_dmY (ddmmyyyy dt) = Some dt"
    using d m y md by simp
  assume "day dt < 10"
  note b = blank_chars [OF r(5) this]
  have "strptime_dmY (CHR '' '' # tl (ddmmyyyy dt)) =
      make_date (py_int (four_digits (year dt))) (py_int (two_digits (month dt)))
        (py_int [CHR '' '', digit_char (day dt)])"
    unfolding ddmmyyyy_def two_digits_def four_digits_def append.simps list.sel
    by (rule strptime_dmY_parse) (use b m is_digit_char in simp_all)
  then show "strptime_dmY (CHR '' '' # tl (ddmmyyyy dt)) = Some dt"
    using b m y md by simp
qed

text \<open>
  Claim C6, as amended.  For a file name of characters with code points below 256 whose
  stem has at least eight characters, \<open>_get_file_datetime_from_name\<close> returns the date \<open>d\<close>
  exactly when \<open>d\<close> is a calendar date and the last eight characters of the stem are \<open>d\<close>
  written as DDMMYYYY, or, for a day below 10, that text with a blank in place of the
  leading zero of the day (the \<open>%d\<close> of \<open>strptime\<close> also matches a blank and a digit).
  For every other tail it returns \<open>None\<close>.
\<close>

theorem date_from_name:
  assumes "8 \<le> length (path_stem p)"
  shows "get_file_datetime_from_name p = Some d \<longleftrightarrow>
           valid_date d \<and> (date_tail p = ddmmyyyy d
                           \<or> (day d < 10 \<and> date_tail p = CHR '' '' # tl (ddmmyyyy d)))"
proof -
  have g: "get_file_datetime_from_name p = strptime_dmY (date_tail p)"
    by (simp add: get_file_datetime_from_name_def date_tail_def Let_def)
  have l: "length (date_tail p) = 8"
    using assms by (simp add: date_tail_def)
  show ?thesis
  proof
    assume "get_file_datetime_from_name p = Some d"
    then have "strptime_dmY (date_tail p) = Some d" by (simp only: g)
    from strptime_dmY_sound [OF this l] show
      "valid_date d \<and> (date_tail p = ddmmyyyy d
                      \<or> (day d < 10 \<and> date_tail p = CHR '' '' # tl (ddmmyyyy d)))" .
  next
    assume a: "valid_date d \<and> (date_tail p = ddmmyyyy d
                      \<or> (day d < 10 \<and> date_tail p = CHR '' '' # tl (ddmmyyyy d)))"
    then have v: "valid_date d" by simp
    from a strptime_dmY_complete [OF v] have "strptime_dmY (date_tail p) = Some d" by auto
    then show "get_file_datetime_from_name p = Some d" by (simp only: g)
  qed
qed

theorem date_from_name_witness:
  "8 \<le> length (path_stem [''data'', ''201908'', ''sec_bhavdata_full_23082019.csv''])
   \<and> valid_date \<lparr>year = 2019, month = 8, day = 23\<rparr>
   \<and> date_tail [''data'', ''201908'', ''sec_bhavdata_full_23082019.csv'']
       = ddmmyyyy \<lparr>year = 2019, month = 8, day = 23\<rparr>
   \<and> get_file_datetime_from_name [''data'', ''201908'', ''sec_bhavdata_full_23082019.csv'']
       = Some \<lparr>year = 2019, month = 8, day = 23\<rparr>"
proof -
  have h: "8 \<le> length (path_stem [''data'', ''201908'', ''sec_bhavdata_full_23082019.csv''])"
    by code_simp
  have v: "valid_date \<lparr>year = 2019, month = 8, day = 23\<rparr>"
    by code_simp
  have t: "date_tail [''data'', ''201908'', ''sec_bhavdata_full_23082019.csv'']
             = ddmmyyyy \<lparr>year = 2019, month = 8, day = 23\<rparr>"
    by code_simp
  show ?thesis
    using date_from_name [OF h, of "\<lparr>year = 2019, month = 8, day = 23\<rparr>"] h v t by simp
qed

text \<open>
  The tail \<open>" 5082019"\<close> begins with a blank, so it is not a date written as DDMMYYYY, and
  the function returns 5 August 2019 for it.
\<close>

theorem blank_day_is_parsed_counterexample:
  "date_tail [''sec_bhavdata_full_ 5082019.csv''] = '' 5082019''
   \<and> \<not> list_all is_digit (date_tail [''sec_bhavdata_full_ 5082019.csv''])
   \<and> ddmmyyyy \<lparr>year = 2019, month = 8, day = 5\<rparr> = ''05082019''
   \<and> get_file_datetime_from_name [''sec_bhavdata_full_ 5082019.csv'']
       = Some \<lparr>year = 2019, month = 8, day = 5\<rparr>"
  by code_simp

end
